theory Spec2Isabelle
  imports Complex_Main "HOL-Library.Sublist" "HOL-Library.Multiset"
begin

section \<open>Strings\<close>

text \<open>
  JavaScript strings are modelled as \<^typ>\<open>string\<close>, one \<^typ>\<open>char\<close> per code unit, and the
  diagnostic texts, keywords and file contents are taken to be ASCII: \<open>toLowerCase\<close> maps
  \<open>A\<close>..\<open>Z\<close> to \<open>a\<close>..\<open>z\<close> and leaves every other character alone.
\<close>

definition toLowerChar :: "char \<Rightarrow> char" where
  "toLowerChar c =
     (case map_of (zip ''ABCDEFGHIJKLMNOPQRSTUVWXYZ'' ''abcdefghijklmnopqrstuvwxyz'') c of
        None \<Rightarrow> c
      | Some l \<Rightarrow> l)"

definition toLowerCase :: "string \<Rightarrow> string" where
  "toLowerCase s = map toLowerChar s"

text \<open>
  \<open>s.includes(sub)\<close>: \<open>sub\<close> occurs in \<open>s\<close> as a contiguous substring. The name
  \<open>includes\<close> is reserved, hence \<open>str_includes\<close>.
\<close>

fun str_includes :: "string \<Rightarrow> string \<Rightarrow> bool" where
  "str_includes [] sub = (sub = [])"
| "str_includes (c # cs) sub = (prefix sub (c # cs) \<or> str_includes cs sub)"

text \<open>\<open>s.startsWith(p)\<close> and \<open>s.endsWith(p)\<close>.\<close>

definition startsWith :: "string \<Rightarrow> string \<Rightarrow> bool" where
  "startsWith s p = prefix p s"

definition endsWith :: "string \<Rightarrow> string \<Rightarrow> bool" where
  "endsWith s p = suffix p s"

text \<open>The decimal rendering of an integer in a template literal.\<close>

definition digit_char :: "nat \<Rightarrow> char" where
  "digit_char d = ''0123456789'' ! (d mod 10)"

fun show_nat :: "nat \<Rightarrow> string" where
  "show_nat n = (if n < 10 then [digit_char n] else show_nat (n div 10) @ [digit_char (n mod 10)])"

declare show_nat.simps [simp del]

definition show_int :: "int \<Rightarrow> string" where
  "show_int i = (if i < 0 then ''-'' @ show_nat (nat (- i)) else show_nat (nat i))"

section \<open>Numbers\<close>

text \<open>
  A JavaScript number is a double. A double is a real number, and the result of an arithmetic
  operation on doubles is the exact result rounded to a double (IEEE 754, round to nearest,
  ties to even). \<open>roundDouble\<close> is this rounding for magnitudes below \<open>2^1024\<close>; overflow to
  infinity and NaN are not modelled (a score of \<open>getMatchingErrorFixes\<close> reaches \<open>2^1024\<close>
  only with a success count above \<open>10^300\<close>). The scores of \<open>getMatchingErrorFixes\<close>, whose
  order can depend on the last bit of a product, are computed with it after each operation.
  Sums of small integers are exact in doubles and are written without rounding.
\<close>

definition pow2 :: "int \<Rightarrow> real" where
  "pow2 e = (if 0 \<le> e then 2 ^ nat e else 1 / 2 ^ nat (- e))"

text \<open>
  The binary exponent \<open>e\<close> of a positive number, \<open>2^e \<le> x < 2^(e+1)\<close>, searched upwards from 0
  or downwards from -1 and kept within \<open>-1022 .. 1023\<close>, the exponents of binary64 (a smaller
  number is subnormal and has the spacing of exponent -1022).
\<close>

fun exponentUp :: "nat \<Rightarrow> int \<Rightarrow> real \<Rightarrow> int" where
  "exponentUp 0 e x = e"
| "exponentUp (Suc n) e x = (if x < pow2 (e + 1) then e else exponentUp n (e + 1) x)"

fun exponentDown :: "nat \<Rightarrow> int \<Rightarrow> real \<Rightarrow> int" where
  "exponentDown 0 e x = e"
| "exponentDown (Suc n) e x = (if pow2 e \<le> x then e else exponentDown n (e - 1) x)"

definition binaryExponent :: "real \<Rightarrow> int" where
  "binaryExponent x = (if 1 \<le> x then exponentUp 1023 0 x else exponentDown 1021 (- 1) x)"

definition roundHalfEven :: "real \<Rightarrow> int" where
  "roundHalfEven y =
     (let f = \<lfloor>y\<rfloor>; r = y - of_int f
      in if r < 1 / 2 then f else if 1 / 2 < r then f + 1 else if even f then f else f + 1)"

text \<open>The nearest number with a 53-bit significand at the exponent of \<open>x\<close>.\<close>

definition roundDouble :: "real \<Rightarrow> real" where
  "roundDouble x =
     (if x = 0 then 0
      else let q = binaryExponent \<bar>x\<bar> - 52
           in sgn x * of_int (roundHalfEven (\<bar>x\<bar> / pow2 q)) * pow2 q)"

section \<open>The pattern store (dynamicPatterns.ts)\<close>

datatype FixType = FileEdit | ConfigChange | DependencyAdd | Manual

datatype PatternSource = Builtin | Learned | User

text \<open>
  \<open>ErrorFixPattern['fix']\<close>; the optional members are options. The field names carry the
  prefix \<open>fix_\<close> because \<open>file\<close> is reserved.
\<close>

record Fix =
  fix_type :: FixType
  fix_file :: "string option"
  fix_search :: "string option"
  fix_replace :: "string option"
  fix_description :: string
  fix_commands :: "string list option"

text \<open>\<open>Partial<ErrorFixPattern['fix']>\<close>, the third argument of \<open>learnErrorFix\<close>.\<close>

record FixDetails =
  fd_type :: "FixType option"
  fd_file :: "string option"
  fd_search :: "string option"
  fd_replace :: "string option"
  fd_description :: "string option"
  fd_commands :: "string list option"

text \<open>
  \<open>ErrorFixPattern\<close>. The number \<open>confidence\<close> is a JavaScript double in the source; it
  is modelled as a real and the counters as integers. The clamped sums of \<open>recordFixUsage\<close>
  are written exactly; the scores that \<open>getMatchingErrorFixes\<close> computes from the confidence
  are rounded to doubles after each operation. \<open>id\<close> and \<open>fix\<close> are renamed \<open>pattern_id\<close>
  and \<open>pattern_fix\<close>.
\<close>

record ErrorFixPattern =
  pattern_id :: string
  errorPattern :: string
  errorKeywords :: "string list"
  pattern_fix :: Fix
  confidence :: real
  successCount :: int
  failureCount :: int
  lastUsed :: string
  source :: PatternSource

text \<open>
  The store is \<open>this.patterns.errorFixes\<close>, an array of distinct objects. Persistence
  (\<open>isDirty\<close>, \<open>save\<close>) writes the same array to disk and does not change it; it is left out.
  \<open>arr.find(P)\<close> is \<^const>\<open>find\<close>; the in-place update of the object found is
  \<open>update_first\<close>.
\<close>

type_synonym store = "ErrorFixPattern list"

fun update_first :: "('a \<Rightarrow> bool) \<Rightarrow> ('a \<Rightarrow> 'a) \<Rightarrow> 'a list \<Rightarrow> 'a list" where
  "update_first P f [] = []"
| "update_first P f (x # xs) = (if P x then f x # xs else x # update_first P f xs)"

text \<open>
  \<open>recordFixUsage(patternId, success)\<close>; \<open>now\<close> is the value of
  \<open>new Date().toISOString()\<close> at the call.
\<close>

definition recordFixUsage :: "string \<Rightarrow> bool \<Rightarrow> string \<Rightarrow> store \<Rightarrow> store" where
  "recordFixUsage patternId success now st =
     (case find (\<lambda>p. pattern_id p = patternId) st of
        None \<Rightarrow> st
      | Some _ \<Rightarrow>
          update_first (\<lambda>p. pattern_id p = patternId)
            (\<lambda>pattern.
               (if success
                then pattern\<lparr>successCount := successCount pattern + 1,
                             confidence := min 1 (confidence pattern + 0.05)\<rparr>
                else pattern\<lparr>failureCount := failureCount pattern + 1,
                             confidence := max 0.1 (confidence pattern - 0.1)\<rparr>)
               \<lparr>lastUsed := now\<rparr>)
            st)"



text \<open>\<open>extractKeywords\<close>.\<close>

definition stopWords :: "string list" where
  "stopWords =
     [''the'', ''a'', ''an'', ''is'', ''are'', ''was'', ''were'', ''be'', ''been'', ''being'',
      ''have'', ''has'', ''had'', ''do'', ''does'', ''did'', ''will'', ''would'', ''could'',
      ''should'', ''may'', ''might'', ''must'', ''shall'', ''can'', ''need'', ''to'', ''of'',
      ''in'', ''for'', ''on'', ''with'', ''at'', ''by'', ''from'', ''as'', ''into'', ''through'',
      ''during'', ''before'', ''after'', ''above'', ''below'', ''between'', ''under'', ''again'',
      ''further'', ''then'', ''once'', ''and'', ''but'', ''or'', ''nor'', ''so'', ''yet'', ''both'',
      ''either'', ''neither'', ''not'', ''only'', ''own'', ''same'', ''than'', ''too'', ''very'',
      ''just'']"

definition isSpace :: "char \<Rightarrow> bool" where
  "isSpace c = (c \<in> set [CHR '' '', CHR 0x09, CHR 0x0A, CHR 0x0B, CHR 0x0C, CHR 0x0D])"

definition isLowerAlnum :: "char \<Rightarrow> bool" where
  "isLowerAlnum c = (c \<in> set ''abcdefghijklmnopqrstuvwxyz0123456789'')"

text \<open>\<open>.replace(/[^a-z0-9\s]/g, ' ')\<close>\<close>

definition blankOthers :: "string \<Rightarrow> string" where
  "blankOthers s = map (\<lambda>c. if isLowerAlnum c \<or> isSpace c then c else CHR '' '') s"

text \<open>
  \<open>.split(/\s+/)\<close>: the pieces between maximal runs of white space, with the empty pieces
  at the two ends that JavaScript returns. The flag says that a run is being skipped.
\<close>

fun splitWs :: "bool \<Rightarrow> string \<Rightarrow> string \<Rightarrow> string list" where
  "splitWs inRun cur [] = [cur]"
| "splitWs inRun cur (c # cs) =
     (if isSpace c
      then (if inRun then splitWs True cur cs else cur # splitWs True [] cs)
      else splitWs False (cur @ [c]) cs)"

definition extractKeywords :: "string \<Rightarrow> string list" where
  "extractKeywords text =
     take 10 (filter (\<lambda>word. length word > 2 \<and> word \<notin> set stopWords)
                (splitWs False [] (blankOthers (toLowerCase text))))"

text \<open>
  \<open>similarity\<close>: the two \<open>Set\<close>s are the duplicate-free lists of the lower-cased
  entries; the loop counts the members of the first that the second has.
\<close>

definition similarity :: "string list \<Rightarrow> string list \<Rightarrow> real" where
  "similarity arr1 arr2 =
     (if arr1 = [] \<or> arr2 = [] then 0
      else
        let set1 = remdups (map toLowerCase arr1);
            set2 = remdups (map toLowerCase arr2);
            intersection = length (filter (\<lambda>item. item \<in> set set2) set1)
        in real intersection / real (max (length set1) (length set2)))"

text \<open>
  \<open>learnErrorFix(errorText, fixDescription, fixDetails, success)\<close>; \<open>now\<close> is
  \<open>new Date().toISOString()\<close> and \<open>nowMs\<close> is \<open>Date.now()\<close> at the call.
\<close>

definition learnErrorFix ::
  "string \<Rightarrow> string \<Rightarrow> FixDetails \<Rightarrow> bool \<Rightarrow> string \<Rightarrow> nat \<Rightarrow> store \<Rightarrow> store" where
  "learnErrorFix errorText fixDescription fixDetails success now nowMs st =
     (let keywords = extractKeywords errorText;
          similar = (\<lambda>p. errorPattern p = errorText \<or> similarity (errorKeywords p) keywords > 0.7)
      in case find similar st of
           Some _ \<Rightarrow>
             update_first similar
               (\<lambda>existing.
                  (if success
                   then existing\<lparr>successCount := successCount existing + 1,
                                 confidence := min 1 (confidence existing + 0.05)\<rparr>
                   else existing\<lparr>failureCount := failureCount existing + 1,
                                 confidence := max 0.1 (confidence existing - 0.1)\<rparr>)
                  \<lparr>lastUsed := now\<rparr>)
               st
         | None \<Rightarrow>
             if success
             then st @
               [\<lparr>pattern_id = ''learned-'' @ show_nat nowMs,
                 errorPattern = take 200 errorText,
                 errorKeywords = keywords,
                 pattern_fix =
                   \<lparr>fix_type = (case fd_type fixDetails of Some t \<Rightarrow> t | None \<Rightarrow> Manual),
                    fix_file = fd_file fixDetails,
                    fix_search = fd_search fixDetails,
                    fix_replace = fd_replace fixDetails,
                    fix_description = fixDescription,
                    fix_commands = fd_commands fixDetails\<rparr>,
                 confidence = 0.7,
                 successCount = 1,
                 failureCount = 0,
                 lastUsed = now,
                 source = Learned\<rparr>]
             else st)"

text \<open>
  \<open>getMatchingErrorFixes(errorText)\<close>. \<open>patternScore\<close> is the body of the loop up to
  the test \<open>score > 0\<close>: a sum of 10 and of 2s, one for each of the fewer than \<open>2^32\<close>
  keywords of an array, hence an integer below \<open>2^53\<close> and computed exactly.
  \<open>collectMatches\<close> is the loop that fills \<open>matches\<close>; the two statements \<open>score *= ...\<close>
  multiply doubles, and so do the division and the addition in \<open>1 + successCount / 10\<close>.
\<close>

definition patternScore :: "string \<Rightarrow> ErrorFixPattern \<Rightarrow> real" where
  "patternScore errorText pattern =
     fold (\<lambda>keyword score.
             if str_includes (toLowerCase errorText) (toLowerCase keyword) then score + 2 else score)
          (errorKeywords pattern)
          (if str_includes errorText (errorPattern pattern) then 0 + 10 else 0)"

fun collectMatches :: "string \<Rightarrow> ErrorFixPattern list \<Rightarrow> (ErrorFixPattern \<times> real) list" where
  "collectMatches errorText [] = []"
| "collectMatches errorText (pattern # rest) =
     (let score = patternScore errorText pattern
      in if score > 0
         then (let score1 = roundDouble (score * confidence pattern);
                   score2 = roundDouble
                     (score1 * roundDouble (1 + roundDouble (real_of_int (successCount pattern) / 10)))
               in (pattern, score2) # collectMatches errorText rest)
         else collectMatches errorText rest)"

text \<open>
  \<open>matches.sort(compareFn)\<close>. \<open>Array.prototype.sort\<close> is stable (ECMAScript 2019): with
  a comparator that is consistent its result is the one of the insertion sort that puts an
  element before the first later element \<open>y\<close> with \<open>compareFn(x, y) \<le> 0\<close>. The comparator of
  the source is \<open>(a, b) => b.score - a.score\<close>, a subtraction of doubles.
\<close>

fun insertByCompare :: "('a \<Rightarrow> 'a \<Rightarrow> real) \<Rightarrow> 'a \<Rightarrow> 'a list \<Rightarrow> 'a list" where
  "insertByCompare compareFn x [] = [x]"
| "insertByCompare compareFn x (y # ys) =
     (if compareFn x y \<le> 0 then x # y # ys else y # insertByCompare compareFn x ys)"

fun sortByCompare :: "('a \<Rightarrow> 'a \<Rightarrow> real) \<Rightarrow> 'a list \<Rightarrow> 'a list" where
  "sortByCompare compareFn [] = []"
| "sortByCompare compareFn (x # xs) = insertByCompare compareFn x (sortByCompare compareFn xs)"

definition getMatchingErrorFixes :: "string \<Rightarrow> store \<Rightarrow> ErrorFixPattern list" where
  "getMatchingErrorFixes errorText st =
     map fst (sortByCompare (\<lambda>a b. roundDouble (snd b - snd a)) (collectMatches errorText st))"

text \<open>
  The score as the specification words it: a fixed weight 10 for the signature occurring in
  the text, 2 for each keyword that occurs in it without regard to case, the sum multiplied
  by the confidence and by \<open>1 + successCount / 10\<close>, in the arithmetic of doubles.
\<close>

definition spec_raw_score :: "string \<Rightarrow> ErrorFixPattern \<Rightarrow> real" where
  "spec_raw_score text p =
     (if str_includes text (errorPattern p) then 10 else 0)
     + 2 * real (length (filter (\<lambda>k. str_includes (toLowerCase text) (toLowerCase k))
                           (errorKeywords p)))"

definition spec_final_score :: "string \<Rightarrow> ErrorFixPattern \<Rightarrow> real" where
  "spec_final_score text p =
     roundDouble (roundDouble (spec_raw_score text p * confidence p)
                  * roundDouble (1 + roundDouble (real_of_int (successCount p) / 10)))"

text \<open>
  The four error fixes of \<open>getDefaultPatterns\<close>, the store of a fresh installation;
  \<open>now\<close> is \<open>new Date().toISOString()\<close> at that moment.
\<close>

definition defaultErrorFixes :: "string \<Rightarrow> store" where
  "defaultErrorFixes now =
     [\<lparr>pattern_id = ''missing-react-import'',
       errorPattern = ''Cannot find name 'React'' @ [CHR 0x27],
       errorKeywords = [''React'', ''cannot find'', ''name''],
       pattern_fix =
         \<lparr>fix_type = FileEdit, fix_file = Some ''src/*.tsx'', fix_search = Some [],
          fix_replace = Some (''import * as React from 'react';'' @ [CHR 0x0A]),
          fix_description = ''Add missing React import'', fix_commands = None\<rparr>,
       confidence = 0.95, successCount = 10, failureCount = 0, lastUsed = now,
       source = Builtin\<rparr>,
      \<lparr>pattern_id = ''classname-type-error'',
       errorPattern = ''Type 'string | undefined' is not assignable'',
       errorKeywords = [''className'', ''undefined'', ''not assignable''],
       pattern_fix =
         \<lparr>fix_type = FileEdit, fix_file = None, fix_search = Some ''className={props.class}'',
          fix_replace = Some (''className={props.class ?? '' @ [CHR 0x22, CHR 0x22] @ ''}''),
          fix_description = ''Add nullish coalescing for className'', fix_commands = None\<rparr>,
       confidence = 0.9, successCount = 5, failureCount = 1, lastUsed = now,
       source = Builtin\<rparr>,
      \<lparr>pattern_id = ''missing-build-script'',
       errorPattern = ''missing script: build'',
       errorKeywords = [''missing'', ''script'', ''build''],
       pattern_fix =
         \<lparr>fix_type = ConfigChange, fix_file = Some ''package.json'', fix_search = None,
          fix_replace = None,
          fix_description = ''Add missing build scripts to package.json'',
          fix_commands = None\<rparr>,
       confidence = 0.95, successCount = 8, failureCount = 0, lastUsed = now,
       source = Builtin\<rparr>,
      \<lparr>pattern_id = ''strict-null-checks'',
       errorPattern = ''Object is possibly'',
       errorKeywords = [''possibly'', ''undefined'', ''null''],
       pattern_fix =
         \<lparr>fix_type = Manual, fix_file = None, fix_search = None, fix_replace = None,
          fix_description =
            ''Add null safety checks - use optional chaining (?.) or nullish coalescing (??)'',
          fix_commands = None\<rparr>,
       confidence = 0.7, successCount = 3, failureCount = 2, lastUsed = now,
       source = Builtin\<rparr>]"

section \<open>The build loop (buildLoop.ts)\<close>

text \<open>
  \<open>GenerationResult\<close> (generatorBridge.ts) and \<open>BuildLoopResult\<close>, which extends it.
  \<open>maxAttempts\<close> is a JavaScript number or undefined; it is modelled as an optional integer.
\<close>

record GenerationResult =
  success :: bool
  outputPath :: "string option"
  mpkPath :: "string option"
  deployedTo :: "string option"
  errors :: "string list"
  warnings :: "string list"

record BuildLoopResult = GenerationResult +
  attempts :: int
  fixesApplied :: "string list"

record BuildLoopOptions =
  workFolder :: "string option"
  mendixProject :: "string option"
  autoDeploy :: "bool option"
  maxAttempts :: "int option"

text \<open>The members of \<open>WidgetConfig\<close> that the build loop reads or writes.\<close>

record WidgetConfig =
  name :: string
  mendixProjectPath :: "string option"

text \<open>\<open>{ applied: boolean; description: string }\<close>, what a fix strategy reports.\<close>

record FixOutcome =
  applied :: bool
  description :: string

text \<open>
  An exception that leaves \<open>execute\<close>: \<open>mkdirSync\<close> failing on the work folder, or one
  thrown inside \<open>analyzeAndFix\<close> outside its \<open>try\<close> blocks.
\<close>

datatype error = WorkFolderError | FixChainError

text \<open>
  The calls of \<open>progressCallback\<close> made by \<open>execute\<close>. The fixed texts of the messages
  are abstracted to constructors, which carry the interpolated values.
\<close>

datatype progress =
    BuildAttempt int int
  | WorkFolderIs string
  | Generating string
  | BuildSuccessful
  | MpkAt string
  | DeployedTo string
  | BuildFailed
  | ErrorText string
  | AnalyzingErrors
  | FixApplied string
  | RetryingBuild
  | NoAutomaticFix

text \<open>
  What a run does to its collaborators, in order: a message to the progress callback, an
  invocation of the executor (\<open>generator.generate\<close>) with the result it returned, a
  consultation of the fix chain (\<open>analyzeAndFix\<close>) with what it returned or threw.
\<close>

datatype event =
    Progress progress
  | Generate GenerationResult
  | Analyze "error + FixOutcome"

text \<open>
  The collaborators of \<open>execute\<close>, over a state \<open>'w\<close> of everything outside the loop (file
  system, pattern store, cancellation token, generator): the token's flag, the default work
  folder, \<open>existsSync\<close>/\<open>mkdirSync\<close> on the work folder (\<open>None\<close> when \<open>mkdirSync\<close> throws),
  the executor (it catches its own exceptions and always returns a result), the fix chain (it
  may throw) and \<open>path.join\<close>.
\<close>

record 'w Collaborators =
  isCancellationRequested :: "'w \<Rightarrow> bool"
  getDefaultWorkFolder :: "'w \<Rightarrow> string"
  ensureWorkFolder :: "string \<Rightarrow> 'w \<Rightarrow> 'w option"
  generate :: "WidgetConfig \<Rightarrow> string \<Rightarrow> 'w \<Rightarrow> GenerationResult \<times> 'w"
  analyzeAndFix :: "string list \<Rightarrow> WidgetConfig \<Rightarrow> string \<Rightarrow> 'w \<Rightarrow> (error + FixOutcome) \<times> 'w"
  pathJoin :: "string \<Rightarrow> string \<Rightarrow> string"

text \<open>The variables of the loop, with the state of the collaborators and the events so far.\<close>

record 'w LoopState =
  ls_attempt :: int
  ls_fixesApplied :: "string list"
  ls_world :: 'w
  ls_trace :: "event list"

type_synonym 'w run = "(error + BuildLoopResult) \<times> 'w \<times> event list"

datatype ('r, 's) iteration = Return 'r | Continue 's

text \<open>\<open>x || y\<close> on an optional string: an absent or empty string is falsy.\<close>

fun orElse :: "string option \<Rightarrow> string \<Rightarrow> string" where
  "orElse None d = d"
| "orElse (Some []) d = d"
| "orElse (Some (c # cs)) d = c # cs"

text \<open>\<open>arr.join(sep)\<close>\<close>

fun join :: "string \<Rightarrow> string list \<Rightarrow> string" where
  "join sep [] = []"
| "join sep [x] = x"
| "join sep (x # y # ys) = x @ sep @ join sep (y # ys)"

text \<open>The three object literals that \<open>execute\<close> returns.\<close>

definition cancelledResult :: "int \<Rightarrow> string list \<Rightarrow> BuildLoopResult" where
  "cancelledResult attempt fixes =
     \<lparr>success = False, outputPath = None, mpkPath = None, deployedTo = None,
      errors = [''Operation cancelled''], warnings = [],
      attempts = attempt, fixesApplied = fixes\<rparr>"

definition successResult :: "GenerationResult \<Rightarrow> int \<Rightarrow> string list \<Rightarrow> BuildLoopResult" where
  "successResult result attempt fixes =
     \<lparr>success = success result, outputPath = outputPath result, mpkPath = mpkPath result,
      deployedTo = deployedTo result, errors = errors result, warnings = warnings result,
      attempts = attempt, fixesApplied = fixes\<rparr>"

definition allAttemptsFailed :: "int \<Rightarrow> string list \<Rightarrow> BuildLoopResult" where
  "allAttemptsFailed attempt fixes =
     \<lparr>success = False, outputPath = None, mpkPath = None, deployedTo = None,
      errors = [''Build failed after '' @ show_int attempt @ '' attempts''], warnings = [],
      attempts = attempt, fixesApplied = fixes\<rparr>"

text \<open>\<open>const maxAttempts = options.maxAttempts || 3\<close>\<close>

definition maxAttemptsOrDefault :: "BuildLoopOptions \<Rightarrow> int" where
  "maxAttemptsOrDefault options =
     (case maxAttempts options of None \<Rightarrow> 3 | Some n \<Rightarrow> if n = 0 then 3 else n)"

text \<open>
  The body of the \<open>while\<close> loop: it ends in a \<open>return\<close> (or in \<open>break\<close>, which leads to
  the last \<open>return\<close> of \<open>execute\<close>), or goes back to the test of the loop.
\<close>

definition attemptBody ::
  "'w Collaborators \<Rightarrow> WidgetConfig \<Rightarrow> BuildLoopOptions \<Rightarrow> int \<Rightarrow> 'w LoopState
     \<Rightarrow> ('w run, 'w LoopState) iteration" where
  "attemptBody C config options maxAtt s =
     (let attempt = ls_attempt s + 1;
          fixes = ls_fixesApplied s;
          w = ls_world s;
          tr = ls_trace s
      in if isCancellationRequested C w
         then Return (Inr (cancelledResult attempt fixes), w, tr)
         else
           let tr1 = tr @ [Progress (BuildAttempt attempt maxAtt)];
               folder = orElse (workFolder options) (getDefaultWorkFolder C w)
           in case ensureWorkFolder C folder w of
                None \<Rightarrow> Return (Inl WorkFolderError, w, tr1)
              | Some w1 \<Rightarrow>
                  let fullConfig = config\<lparr>mendixProjectPath :=
                        (if autoDeploy options = Some True then mendixProject options else None)\<rparr>;
                      tr2 = tr1 @ [Progress (WorkFolderIs folder), Progress (Generating (name config))];
                      (result, w2) = generate C fullConfig folder w1;
                      tr3 = tr2 @ [Generate result]
                  in if success result
                     then Return (Inr (successResult result attempt fixes), w2,
                            tr3 @ [Progress BuildSuccessful]
                              @ (case mpkPath result of
                                   Some (c # cs) \<Rightarrow> [Progress (MpkAt (c # cs))] | _ \<Rightarrow> [])
                              @ (case deployedTo result of
                                   Some (c # cs) \<Rightarrow> [Progress (DeployedTo (c # cs))] | _ \<Rightarrow> []))
                     else
                       let tr4 = tr3 @ [Progress BuildFailed,
                                        Progress (ErrorText (join [CHR 0x0A] (errors result)))]
                       in if attempt < maxAtt
                          then
                            let (fix, w3) = analyzeAndFix C (errors result) config
                                  (orElse (outputPath result)
                                     (pathJoin C folder (toLowerCase (name config)))) w2;
                                tr5 = tr4 @ [Progress AnalyzingErrors, Analyze fix]
                            in case fix of
                                 Inl e \<Rightarrow> Return (Inl e, w3, tr5)
                               | Inr f \<Rightarrow>
                                   if applied f
                                   then Continue
                                     \<lparr>ls_attempt = attempt,
                                      ls_fixesApplied = fixes @ [description f],
                                      ls_world = w3,
                                      ls_trace = tr5 @ [Progress (FixApplied (description f)),
                                                        Progress RetryingBuild]\<rparr>
                                   else Return (Inr (allAttemptsFailed attempt fixes), w3,
                                          tr5 @ [Progress NoAutomaticFix])
                          else Continue
                            \<lparr>ls_attempt = attempt, ls_fixesApplied = fixes,
                             ls_world = w2, ls_trace = tr4\<rparr>)"

lemma attemptBody_Continue_attempt:
  "attemptBody C config options maxAtt s = Continue s' \<Longrightarrow> ls_attempt s' = ls_attempt s + 1"
  unfolding attemptBody_def
  by (auto simp: Let_def split: if_splits option.splits prod.splits sum.splits)

text \<open>The \<open>while\<close> loop with the \<open>return\<close> that follows it.\<close>

function executeLoop ::
  "'w Collaborators \<Rightarrow> WidgetConfig \<Rightarrow> BuildLoopOptions \<Rightarrow> int \<Rightarrow> 'w LoopState \<Rightarrow> 'w run" where
  "executeLoop C config options maxAtt s =
     (if ls_attempt s < maxAtt
      then (case attemptBody C config options maxAtt s of
              Return r \<Rightarrow> r
            | Continue s' \<Rightarrow> executeLoop C config options maxAtt s')
      else (Inr (allAttemptsFailed (ls_attempt s) (ls_fixesApplied s)), ls_world s, ls_trace s))"
  by pat_completeness auto
termination
  by (relation "measure (\<lambda>(C, config, options, maxAtt, s). nat (maxAtt - ls_attempt s))")
     (auto dest: attemptBody_Continue_attempt)

declare executeLoop.simps [simp del]

definition execute ::
  "'w Collaborators \<Rightarrow> WidgetConfig \<Rightarrow> BuildLoopOptions \<Rightarrow> 'w \<Rightarrow> 'w run" where
  "execute C config options w =
     executeLoop C config options (maxAttemptsOrDefault options)
       \<lparr>ls_attempt = 0, ls_fixesApplied = [], ls_world = w, ls_trace = []\<rparr>"

text \<open>The executor invocations and the fix-chain consultations of a trace, in order.\<close>

fun generated :: "event list \<Rightarrow> GenerationResult list" where
  "generated [] = []"
| "generated (Generate g # es) = g # generated es"
| "generated (e # es) = generated es"

fun analyzed :: "event list \<Rightarrow> (error + FixOutcome) list" where
  "analyzed [] = []"
| "analyzed (Analyze f # es) = f # analyzed es"
| "analyzed (e # es) = analyzed es"

text \<open>The descriptions of the fixes that the fix chain reported as applied, in order.\<close>

fun fixDescriptions :: "event list \<Rightarrow> string list" where
  "fixDescriptions [] = []"
| "fixDescriptions (Analyze (Inr f) # es) =
     (if applied f then [description f] else []) @ fixDescriptions es"
| "fixDescriptions (e # es) = fixDescriptions es"

text \<open>
  The collaborators with a record of their invocations: the state of \<open>recording C\<close> is the
  state of \<open>C\<close> together with the calls of the executor and of the fix chain made so far, each
  with its arguments and with what it returned. Only the two functions themselves add to the
  record, so it tells how often \<open>execute\<close> invoked them.
\<close>

datatype call =
    GenerateCall WidgetConfig string GenerationResult
  | AnalyzeCall "string list" WidgetConfig string "error + FixOutcome"

definition recording :: "'w Collaborators \<Rightarrow> ('w \<times> call list) Collaborators" where
  "recording C =
     \<lparr>isCancellationRequested = (\<lambda>(w, calls). isCancellationRequested C w),
      getDefaultWorkFolder = (\<lambda>(w, calls). getDefaultWorkFolder C w),
      ensureWorkFolder = (\<lambda>folder (w, calls).
        map_option (\<lambda>w'. (w', calls)) (ensureWorkFolder C folder w)),
      generate = (\<lambda>cfg folder (w, calls).
        case generate C cfg folder w of
          (result, w') \<Rightarrow> (result, (w', calls @ [GenerateCall cfg folder result]))),
      analyzeAndFix = (\<lambda>errs cfg path (w, calls).
        case analyzeAndFix C errs cfg path w of
          (outcome, w') \<Rightarrow> (outcome, (w', calls @ [AnalyzeCall errs cfg path outcome]))),
      pathJoin = pathJoin C\<rparr>"

fun generateCalls :: "call list \<Rightarrow> GenerationResult list" where
  "generateCalls [] = []"
| "generateCalls (GenerateCall cfg folder result # cs) = result # generateCalls cs"
| "generateCalls (c # cs) = generateCalls cs"

fun analyzeCalls :: "call list \<Rightarrow> (error + FixOutcome) list" where
  "analyzeCalls [] = []"
| "analyzeCalls (AnalyzeCall errs cfg path outcome # cs) = outcome # analyzeCalls cs"
| "analyzeCalls (c # cs) = analyzeCalls cs"

text \<open>A loop state of \<open>recording C\<close> without the record.\<close>

definition withoutRecord :: "('w \<times> call list) LoopState \<Rightarrow> 'w LoopState" where
  "withoutRecord s =
     \<lparr>ls_attempt = ls_attempt s, ls_fixesApplied = ls_fixesApplied s,
      ls_world = fst (ls_world s), ls_trace = ls_trace s\<rparr>"

text \<open>The record and the trace of a loop state hold the same invocations.\<close>

definition recordAgrees :: "('w \<times> call list) LoopState \<Rightarrow> bool" where
  "recordAgrees s =
     (generated (ls_trace s) = generateCalls (snd (ls_world s))
      \<and> analyzed (ls_trace s) = analyzeCalls (snd (ls_world s)))"

section \<open>The fix strategies (buildLoop.ts)\<close>

text \<open>
  The widget directory at \<open>widgetPath\<close>, as far as the strategies touch it: its \<open>src\<close>
  subdirectory, the list of file names with their contents in the order of \<open>readdirSync\<close>
  (\<open>None\<close> when \<open>src\<close> does not exist), and \<open>package.json\<close>. The entries of \<open>src\<close> are
  regular files with distinct names, and reading and writing them does not fail. Of
  \<open>package.json\<close> only the two script entries are kept: \<open>Manifest build dev\<close>, with \<open>None\<close>
  for a missing entry; \<open>Malformed\<close> is a file on which \<open>JSON.parse\<close> or the access to
  \<open>scripts\<close> throws.
\<close>

datatype PackageJson = Malformed | Manifest "string option" "string option"

record WidgetDir =
  srcDir :: "(string \<times> string) list option"
  packageJson :: "PackageJson option"

text \<open>
  \<open>s.replace(search, replacement)\<close> with a string pattern: the first occurrence is replaced,
  and in the replacement \<open>$$\<close>, \<open>$&\<close>, \<open>$`\<close> and \<open>$'\<close> stand for a dollar sign, the matched
  text, the text before it and the text after it.
\<close>

fun splitAtFirst :: "string \<Rightarrow> string \<Rightarrow> (string \<times> string) option" where
  "splitAtFirst sub [] = (if sub = [] then Some ([], []) else None)"
| "splitAtFirst sub (c # cs) =
     (if prefix sub (c # cs) then Some ([], drop (length sub) (c # cs))
      else map_option (\<lambda>(pre, post). (c # pre, post)) (splitAtFirst sub cs))"

fun expandReplacement :: "string \<Rightarrow> string \<Rightarrow> string \<Rightarrow> string \<Rightarrow> string" where
  "expandReplacement matched pre post [] = []"
| "expandReplacement matched pre post [c] = [c]"
| "expandReplacement matched pre post (c # d # rest) =
     (if c = CHR ''$'' \<and> d = CHR ''$'' then CHR ''$'' # expandReplacement matched pre post rest
      else if c = CHR ''$'' \<and> d = CHR ''&'' then matched @ expandReplacement matched pre post rest
      else if c = CHR ''$'' \<and> d = CHR 0x60 then pre @ expandReplacement matched pre post rest
      else if c = CHR ''$'' \<and> d = CHR 0x27 then post @ expandReplacement matched pre post rest
      else c # expandReplacement matched pre post (d # rest))"

definition jsReplace :: "string \<Rightarrow> string \<Rightarrow> string \<Rightarrow> string" where
  "jsReplace s search replacement =
     (case splitAtFirst search s of
        None \<Rightarrow> s
      | Some (pre, post) \<Rightarrow> pre @ expandReplacement search pre post replacement @ post)"

text \<open>
  \<open>applyNucleusFix\<close>, case \<open>file-edit\<close>. \<open>fileMatches\<close> is the test that lets a file of
  \<open>src\<close> through, \<open>editContent\<close> what is done to its content (with whether it was written),
  \<open>editFiles\<close> the loop over the files with the flag \<open>applied\<close>.
\<close>

definition fileMatches :: "string \<Rightarrow> string \<Rightarrow> bool" where
  "fileMatches fixFile fileName =
     (if str_includes fixFile ''*''
      then endsWith fileName (jsReplace (jsReplace fixFile ''*'' []) ''src/'' [])
      else str_includes fixFile fileName)"

definition editContent :: "string \<Rightarrow> string \<Rightarrow> string \<Rightarrow> string \<times> bool" where
  "editContent search replacement content =
     (if search = [] \<and> replacement \<noteq> []
      then (if \<not> str_includes content replacement then (replacement @ content, True)
            else (content, False))
      else if search \<noteq> [] \<and> str_includes content search
      then (jsReplace content search replacement, True)
      else (content, False))"

fun editFiles ::
  "string \<Rightarrow> string \<Rightarrow> string \<Rightarrow> (string \<times> string) list \<Rightarrow> bool
     \<Rightarrow> (string \<times> string) list \<times> bool" where
  "editFiles fixFile search replacement [] anyApplied = ([], anyApplied)"
| "editFiles fixFile search replacement ((fileName, content) # rest) anyApplied =
     (if fileMatches fixFile fileName
      then let (content', written) = editContent search replacement content;
               (rest', anyApplied') =
                 editFiles fixFile search replacement rest (anyApplied \<or> written)
           in ((fileName, content') # rest', anyApplied')
      else let (rest', anyApplied') = editFiles fixFile search replacement rest anyApplied
           in ((fileName, content) # rest', anyApplied'))"

text \<open>
  \<open>applyNucleusFix(pattern, widgetPath)\<close>: whether the fix was applied, and the directory
  afterwards. An exception inside is caught and gives \<open>false\<close>.
\<close>

definition applyNucleusFix :: "ErrorFixPattern \<Rightarrow> WidgetDir \<Rightarrow> bool \<times> WidgetDir" where
  "applyNucleusFix pattern d =
     (let fx = pattern_fix pattern
      in case fix_type fx of
           FileEdit \<Rightarrow>
             (case (fix_file fx, fix_search fx, fix_replace fx) of
                (Some (c # cs), Some search, Some replacement) \<Rightarrow>
                  (case srcDir d of
                     None \<Rightarrow> (False, d)
                   | Some files \<Rightarrow>
                       let (files', anyApplied) = editFiles (c # cs) search replacement files False
                       in (anyApplied, d\<lparr>srcDir := Some files'\<rparr>))
              | _ \<Rightarrow> (False, d))
         | ConfigChange \<Rightarrow>
             (if fix_file fx = Some ''package.json''
              then (case packageJson d of
                      None \<Rightarrow> (False, d)
                    | Some Malformed \<Rightarrow> (False, d)
                    | Some (Manifest build dev) \<Rightarrow>
                        (True, d\<lparr>packageJson := Some (Manifest
                           (Some (orElse build ''pluggable-widgets-tools build:web''))
                           (Some (orElse dev ''pluggable-widgets-tools start:web'')))\<rparr>))
              else (False, d))
         | DependencyAdd \<Rightarrow> (False, d)
         | Manual \<Rightarrow> (False, d))"

text \<open>
  The number of occurrences of a non-empty text in a string, counted from the left without
  overlap (\<open>s.split(sub).length - 1\<close>): what it means for a text to appear once in a file.
\<close>

function occurrences :: "string \<Rightarrow> string \<Rightarrow> nat" where
  "occurrences sub s =
     (if sub = [] \<or> s = [] then 0
      else if prefix sub s then Suc (occurrences sub (drop (length sub) s))
      else occurrences sub (tl s))"
  by pat_completeness auto
termination
  by (relation "measure (\<lambda>(sub, s). length s)") auto

declare occurrences.simps [simp del]

text \<open>
  The state that \<open>analyzeAndFix\<close> works on: the widget directory and the error fixes of the
  pattern store (whose ids are distinct).
\<close>

record FixWorld =
  widgetDir :: WidgetDir
  patterns :: store

text \<open>
  What \<open>analyzeAndFix\<close> takes from outside buildLoop.ts and dynamicPatterns.ts: the clock,
  whether \<open>npm install <module>\<close> run in the widget directory succeeds, the saved fixes that
  \<open>knowledgeSharing.getKnownFixes\<close> returns for an error text (signature and fix text),
  the interpretation of such a fix text as JSON edits (\<open>applyKnownFix\<close>), and the last resort,
  the language model with \<open>applyAIFix\<close>, which catches every exception.
\<close>

record FixEnv =
  clockIso :: string
  clockMs :: nat
  npmInstall :: "string \<Rightarrow> WidgetDir \<Rightarrow> bool"
  getKnownFixes :: "string \<Rightarrow> (string \<times> string) list"
  applyKnownFix :: "string \<Rightarrow> WidgetDir \<Rightarrow> bool \<times> WidgetDir"
  aiFix :: "string \<Rightarrow> WidgetDir \<Rightarrow> FixOutcome \<times> WidgetDir"

text \<open>
  \<open>errorText.match(/Cannot find module ['"]([^'"]+)['"]/)\<close>: the module name of the
  leftmost match. At a position where the prefix and a quote match, the greedy group takes the
  whole run of characters that are not quotes; the match succeeds there when the run is not
  empty and a quote follows it.
\<close>

definition isQuote :: "char \<Rightarrow> bool" where
  "isQuote c = (c = CHR 0x27 \<or> c = CHR 0x22)"

definition moduleNameAt :: "string \<Rightarrow> string option" where
  "moduleNameAt s =
     (if prefix ''Cannot find module '' s
      then (case drop (length ''Cannot find module '') s of
              [] \<Rightarrow> None
            | q # rest \<Rightarrow>
                if isQuote q \<and> takeWhile (\<lambda>c. \<not> isQuote c) rest \<noteq> []
                   \<and> dropWhile (\<lambda>c. \<not> isQuote c) rest \<noteq> []
                then Some (takeWhile (\<lambda>c. \<not> isQuote c) rest)
                else None)
      else None)"

fun matchCannotFindModule :: "string \<Rightarrow> string option" where
  "matchCannotFindModule [] = None"
| "matchCannotFindModule (c # cs) =
     (case moduleNameAt (c # cs) of
        Some moduleName \<Rightarrow> Some moduleName
      | None \<Rightarrow> matchCannotFindModule cs)"

text \<open>
  \<open>tryPatternFix(errorText, widgetPath)\<close>. \<open>installMissingModule\<close> is its first rule: the name
  of the module when the rule returns (the install succeeded), \<open>None\<close> when control passes to
  the next rule. \<open>addReactImport\<close> is the body of the loop of the second rule.
\<close>

definition installMissingModule :: "FixEnv \<Rightarrow> string \<Rightarrow> WidgetDir \<Rightarrow> string option" where
  "installMissingModule env errorText d =
     (let errorLower = toLowerCase errorText
      in if str_includes errorLower ''cannot find module'' \<or> str_includes errorLower ''module not found''
         then (case matchCannotFindModule errorText of
                 None \<Rightarrow> None
               | Some moduleName \<Rightarrow>
                   if \<not> startsWith moduleName ''.'' \<and> \<not> startsWith moduleName ''/''
                      \<and> npmInstall env moduleName d
                   then Some moduleName
                   else None)
         else None)"

definition reactImport :: string where
  "reactImport = ''import * as React from 'react';'' @ [CHR 0x0A]"

definition addReactImport :: "string \<times> string \<Rightarrow> string \<times> string" where
  "addReactImport entry =
     (case entry of (fileName, content) \<Rightarrow>
        if endsWith fileName ''.tsx''
           \<and> \<not> str_includes content ''import React'' \<and> \<not> str_includes content ''import * as React''
        then (fileName, reactImport @ content)
        else (fileName, content))"

definition mentionsMissingReact :: "string \<Rightarrow> bool" where
  "mentionsMissingReact errorText =
     (str_includes (toLowerCase errorText) (CHR 0x27 # ''react' must be in scope'')
      \<or> str_includes (toLowerCase errorText) (''cannot find name 'react'' @ [CHR 0x27]))"

definition tryPatternFix ::
  "FixEnv \<Rightarrow> string \<Rightarrow> WidgetDir \<Rightarrow> (error + FixOutcome) \<times> WidgetDir" where
  "tryPatternFix env errorText d =
     (let errorLower = toLowerCase errorText
      in case installMissingModule env errorText d of
           Some moduleName \<Rightarrow>
             (Inr \<lparr>applied = True, description = ''Installed missing module: '' @ moduleName\<rparr>, d)
         | None \<Rightarrow>
             if mentionsMissingReact errorText \<and> srcDir d \<noteq> None
             then (Inr \<lparr>applied = True, description = ''Added missing React imports''\<rparr>,
                   d\<lparr>srcDir := map_option (map addReactImport) (srcDir d)\<rparr>)
             else if str_includes errorLower (''object is possibly 'null'' @ [CHR 0x27])
                     \<or> str_includes errorLower (''object is possibly 'undefined'' @ [CHR 0x27])
             then (Inr \<lparr>applied = False,
                        description = ''Null safety issue requires manual review''\<rparr>, d)
             else if str_includes errorLower ''missing script: build''
             then (case packageJson d of
                     None \<Rightarrow> (Inr \<lparr>applied = False, description = []\<rparr>, d)
                   | Some Malformed \<Rightarrow> (Inl FixChainError, d)
                   | Some (Manifest build dev) \<Rightarrow>
                       (Inr \<lparr>applied = True,
                             description = ''Added missing build scripts to package.json''\<rparr>,
                        d\<lparr>packageJson := Some (Manifest
                           (Some ''pluggable-widgets-tools build:web'')
                           (Some ''pluggable-widgets-tools start:web''))\<rparr>))
             else (Inr \<lparr>applied = False, description = []\<rparr>, d))"

text \<open>
  \<open>analyzeAndFix\<close>, part 0: the loop over the patterns that the nucleus matched. Every
  pattern with confidence at least 0.7 is tried and its outcome recorded.
\<close>

fun tryNucleusPatterns ::
  "FixEnv \<Rightarrow> ErrorFixPattern list \<Rightarrow> FixWorld \<Rightarrow> FixOutcome option \<times> FixWorld" where
  "tryNucleusPatterns env [] w = (None, w)"
| "tryNucleusPatterns env (pattern # rest) w =
     (if confidence pattern \<ge> 0.7
      then let (ok, d') = applyNucleusFix pattern (widgetDir w)
           in if ok
              then (Some \<lparr>applied = True,
                          description = ''[NUCLEUS] '' @ fix_description (pattern_fix pattern)\<rparr>,
                    w\<lparr>widgetDir := d',
                      patterns := recordFixUsage (pattern_id pattern) True (clockIso env) (patterns w)\<rparr>)
              else tryNucleusPatterns env rest
                     (w\<lparr>widgetDir := d',
                        patterns := recordFixUsage (pattern_id pattern) False (clockIso env) (patterns w)\<rparr>)
      else tryNucleusPatterns env rest w)"

text \<open>Part 1: the loop over the known fixes of the knowledge base.\<close>

fun tryKnownFixes ::
  "FixEnv \<Rightarrow> (string \<times> string) list \<Rightarrow> FixWorld \<Rightarrow> FixOutcome option \<times> FixWorld" where
  "tryKnownFixes env [] w = (None, w)"
| "tryKnownFixes env ((knownPattern, knownFix) # rest) w =
     (let (ok, d') = applyKnownFix env knownFix (widgetDir w)
      in if ok
         then (Some \<lparr>applied = True, description = ''[LEARNED] '' @ take 100 knownFix\<rparr>,
               w\<lparr>widgetDir := d',
                 patterns := learnErrorFix knownPattern knownFix
                   \<lparr>fd_type = Some Manual, fd_file = None, fd_search = None, fd_replace = None,
                    fd_description = Some knownFix, fd_commands = None\<rparr>
                   True (clockIso env) (clockMs env) (patterns w)\<rparr>)
         else tryKnownFixes env rest (w\<lparr>widgetDir := d'\<rparr>))"

text \<open>
  \<open>analyzeAndFix(errors, config, widgetPath, progressCallback)\<close>, here
  \<open>analyzeAndFixChain\<close> (the record of collaborators has a field \<open>analyzeAndFix\<close>). The
  messages to the progress callback and \<open>knowledgeSharing.saveWorkingFix\<close>, which writes to
  the knowledge base only, are left out.
\<close>

definition analyzeAndFixChain ::
  "FixEnv \<Rightarrow> string list \<Rightarrow> WidgetConfig \<Rightarrow> string \<Rightarrow> FixWorld \<Rightarrow> (error + FixOutcome) \<times> FixWorld" where
  "analyzeAndFixChain env errs config widgetPath w =
     (let errorText = join [CHR 0x0A] errs
      in case tryNucleusPatterns env (getMatchingErrorFixes errorText (patterns w)) w of
           (Some outcome, w1) \<Rightarrow> (Inr outcome, w1)
         | (None, w1) \<Rightarrow>
             (case tryKnownFixes env (getKnownFixes env errorText) w1 of
                (Some outcome, w2) \<Rightarrow> (Inr outcome, w2)
              | (None, w2) \<Rightarrow>
                  (case tryPatternFix env errorText (widgetDir w2) of
                     (Inl e, d3) \<Rightarrow> (Inl e, w2\<lparr>widgetDir := d3\<rparr>)
                   | (Inr patternFix, d3) \<Rightarrow>
                       if applied patternFix
                       then (Inr patternFix,
                             w2\<lparr>widgetDir := d3,
                                patterns := learnErrorFix (take 200 errorText)
                                  (description patternFix)
                                  \<lparr>fd_type = Some Manual, fd_file = None, fd_search = None,
                                   fd_replace = None,
                                   fd_description = Some (description patternFix),
                                   fd_commands = None\<rparr>
                                  True (clockIso env) (clockMs env) (patterns w2)\<rparr>)
                       else (case aiFix env errorText d3 of
                               (outcome, d4) \<Rightarrow> (Inr outcome, w2\<lparr>widgetDir := d4\<rparr>)))))"

text \<open>
  Test doubles: a token that is never cancelled, an executor that fails on every invocation
  with one diagnostic, and a fix chain that reports an applied fix on every consultation.
\<close>

definition stubFailure :: GenerationResult where
  "stubFailure =
     \<lparr>success = False, outputPath = None, mpkPath = None, deployedTo = None,
      errors = [''TS2304: Cannot find name React''], warnings = []\<rparr>"

definition stubCollaborators :: "unit Collaborators" where
  "stubCollaborators =
     \<lparr>isCancellationRequested = (\<lambda>w. False),
      getDefaultWorkFolder = (\<lambda>w. ''/tmp/mendix-widgets''),
      ensureWorkFolder = (\<lambda>folder w. Some w),
      generate = (\<lambda>cfg folder w. (stubFailure, w)),
      analyzeAndFix = (\<lambda>errs cfg path w.
        (Inr \<lparr>applied = True, description = ''Added missing React imports''\<rparr>, w)),
      pathJoin = (\<lambda>a b. a @ ''/'' @ b)\<rparr>"

definition stubConfig :: WidgetConfig where
  "stubConfig = \<lparr>name = ''Badge'', mendixProjectPath = None\<rparr>"

definition stubOptions :: "int option \<Rightarrow> BuildLoopOptions" where
  "stubOptions n = \<lparr>workFolder = None, mendixProject = None, autoDeploy = None, maxAttempts = n\<rparr>"

text \<open>
  What a prepend of \<open>r\<close> leaves in \<open>src\<close>: every file that the file specification lets
  through and that does not contain \<open>r\<close> now starts with it; the others are as before.
\<close>

definition prependedFiles :: "string \<Rightarrow> string \<Rightarrow> (string \<times> string) list \<Rightarrow> (string \<times> string) list" where
  "prependedFiles fixFile r files =
     map (\<lambda>(f, c). (f, if fileMatches fixFile f \<and> \<not> str_includes c r then r @ c else c)) files"

text \<open>A widget directory whose component does not import React.\<close>

definition badgeDir :: WidgetDir where
  "badgeDir =
     \<lparr>srcDir = Some [(''Badge.tsx'', ''export function Badge() { return <span/>; }''),
                      (''Badge.xml'', ''<widget/>'')],
      packageJson = None\<rparr>"

text \<open>
  An environment with an empty knowledge base, no language model, and an \<open>npm install\<close>
  that succeeds; a diagnostic of a missing React import; a widget directory whose only
  component already has the import; a diagnostic that also names a missing module.
\<close>

definition quietEnv :: FixEnv where
  "quietEnv =
     \<lparr>clockIso = ''2025-01-01T00:00:00.000Z'', clockMs = 1000,
      npmInstall = (\<lambda>moduleName d. True),
      getKnownFixes = (\<lambda>errorText. []),
      applyKnownFix = (\<lambda>knownFix d. (False, d)),
      aiFix = (\<lambda>errorText d.
        (\<lparr>applied = False, description = ''No AI model available for analysis''\<rparr>, d))\<rparr>"

definition reactDiagnostic :: string where
  "reactDiagnostic = ''src/Badge.tsx(3,10): error TS2304: Cannot find name 'React'.''"

definition importedDir :: WidgetDir where
  "importedDir =
     \<lparr>srcDir = Some [(''Badge.tsx'', reactImport @ ''export function Badge() { return <span/>; }'')],
      packageJson = None\<rparr>"

definition moduleAndReactDiagnostic :: string where
  "moduleAndReactDiagnostic =
     ''Cannot find module 'lodash' or its type declarations.'' @ [CHR 0x0A]
     @ [CHR 0x27] @ ''React' must be in scope when using JSX''"

text \<open>
  The build loop with the fix chain of this file, an executor that fails with a given result,
  and the store of a fresh installation.
\<close>

definition chainCollaborators :: "FixEnv \<Rightarrow> GenerationResult \<Rightarrow> FixWorld Collaborators" where
  "chainCollaborators env failure =
     \<lparr>isCancellationRequested = (\<lambda>w. False),
      getDefaultWorkFolder = (\<lambda>w. ''/tmp/mendix-widgets''),
      ensureWorkFolder = (\<lambda>folder w. Some w),
      generate = (\<lambda>cfg folder w. (failure, w)),
      analyzeAndFix = analyzeAndFixChain env,
      pathJoin = (\<lambda>a b. a @ ''/'' @ b)\<rparr>"

definition reactFailure :: GenerationResult where
  "reactFailure =
     \<lparr>success = False, outputPath = None, mpkPath = None, deployedTo = None,
      errors = [reactDiagnostic], warnings = []\<rparr>"

definition freshWorld :: FixWorld where
  "freshWorld = \<lparr>widgetDir = importedDir, patterns = defaultErrorFixes ''t0''\<rparr>"

text \<open>The fresh store after the nucleus tried its React pattern on that directory and failed.\<close>

definition triedWorld :: FixWorld where
  "triedWorld =
     freshWorld\<lparr>patterns :=
       recordFixUsage ''missing-react-import'' False (clockIso quietEnv) (patterns freshWorld)\<rparr>"

text \<open>
  A store for the ranking: patterns that match by keywords only. With the diagnostic
  \<open>alpha beta gamma\<close> the first and the third pattern of \<open>tieStore\<close> have one keyword in the
  text and the second has three; the confidences are the doubles that the literals \<open>0.3\<close> and
  \<open>0.1\<close> denote.
\<close>

definition scoredPattern :: "string \<Rightarrow> string list \<Rightarrow> real \<Rightarrow> ErrorFixPattern" where
  "scoredPattern ident keywords conf =
     \<lparr>pattern_id = ident, errorPattern = ''no such signature'', errorKeywords = keywords,
      pattern_fix = \<lparr>fix_type = Manual, fix_file = None, fix_search = None, fix_replace = None,
                     fix_description = ''review by hand'', fix_commands = None\<rparr>,
      confidence = conf, successCount = 0, failureCount = 0, lastUsed = ''t0'',
      source = User\<rparr>"

definition tieStore :: store where
  "tieStore =
     [scoredPattern ''first'' [''alpha''] (roundDouble (3 / 10)),
      scoredPattern ''second'' [''alpha'', ''beta'', ''gamma''] (roundDouble (1 / 10)),
      scoredPattern ''third'' [''alpha''] (roundDouble (3 / 10))]"

section \<open>Properties of the pattern store\<close>

text \<open>
  Two checks of the model: \<open>str_includes\<close> is the contiguous-substring relation, and
  \<open>similarity\<close> is the size of the intersection of the two lower-cased keyword sets over the
  size of the larger.
\<close>

lemma str_includes_sublist: "str_includes s sub = sublist sub s"
  by (induction s) (auto simp: sublist_Cons_right)

lemma similarity_sets:
  "similarity arr1 arr2 =
     (if arr1 = [] \<or> arr2 = [] then 0
      else real (card (toLowerCase ` set arr1 \<inter> toLowerCase ` set arr2))
           / real (max (card (toLowerCase ` set arr1)) (card (toLowerCase ` set arr2))))"
proof -
  have len: "length (remdups (map toLowerCase xs)) = card (toLowerCase ` set xs)" for xs
    by (simp add: length_remdups_card_conv)
  have inter: "length (filter (\<lambda>item. item \<in> set ys) (remdups xs)) = card (set xs \<inter> set ys)"
    for xs ys :: "string list"
  proof -
    have "set (filter (\<lambda>item. item \<in> set ys) (remdups xs)) = set xs \<inter> set ys"
      by auto
    moreover have "distinct (filter (\<lambda>item. item \<in> set ys) (remdups xs))"
      by simp
    ultimately show ?thesis
      by (metis distinct_card)
  qed
  show ?thesis
    unfolding similarity_def Let_def len
    using inter [of "remdups (map toLowerCase arr2)" "map toLowerCase arr1"]
    by simp
qed










text \<open>
  Claim C3. If no stored pattern has the error text as its signature and none has keywords
  whose \<open>similarity\<close> with the keywords extracted from the text exceeds 0.7, then
  \<open>learnErrorFix(errorText, description, details, false)\<close> leaves the stored patterns as they
  were: none is added, and their number is the same.
\<close>

theorem learnErrorFix_failure_adds_nothing:
  assumes "\<forall>p\<in>set st. errorPattern p \<noteq> errorText
             \<and> \<not> similarity (errorKeywords p) (extractKeywords errorText) > 0.7"
  shows "learnErrorFix errorText fixDescription fixDetails False now nowMs st = st
         \<and> length (learnErrorFix errorText fixDescription fixDetails False now nowMs st) = length st"
proof -
  have "find (\<lambda>p. errorPattern p = errorText
              \<or> similarity (errorKeywords p) (extractKeywords errorText) > 0.7) st = None"
    using assms by (auto simp: find_None_iff)
  then show ?thesis
    by (simp add: learnErrorFix_def Let_def)
qed

text \<open>A failed fix for an unseen error, learnt into the store of a fresh installation.\<close>

theorem learnErrorFix_failure_adds_nothing_witness:
  "learnErrorFix ''some new unseen error'' ''fix X''
        \<lparr>fd_type = Some Manual, fd_file = None, fd_search = None, fd_replace = None,
         fd_description = Some ''fix X'', fd_commands = None\<rparr> False ''t1'' 1000
        (defaultErrorFixes ''t0'') = defaultErrorFixes ''t0''"
proof -
  have h: "\<forall>p\<in>set (defaultErrorFixes ''t0'').
       errorPattern p \<noteq> ''some new unseen error''
       \<and> \<not> similarity (errorKeywords p) (extractKeywords ''some new unseen error'') > 0.7"
    by (simp add: defaultErrorFixes_def extractKeywords_def toLowerCase_def toLowerChar_def
        blankOthers_def isSpace_def isLowerAlnum_def stopWords_def similarity_def)
  show ?thesis
    using learnErrorFix_failure_adds_nothing [OF h] by blast
qed

text \<open>
  The rounding. A double is a multiple of \<open>2^-1074\<close>; rounding keeps the sign, takes no number
  of magnitude \<open>2^-1074\<close> or more to zero and no number above 1 below 1.
\<close>

lemma pow2_powi: "pow2 e = 2 powi e"
  by (simp add: pow2_def power_int_def field_simps)

lemma pow2_pos: "0 < pow2 e"
  by (simp add: pow2_def)

lemma pow2_add: "pow2 (a + b) = pow2 a * pow2 b"
  by (simp add: pow2_powi power_int_add)

lemma pow2_mono: "a \<le> b \<Longrightarrow> pow2 a \<le> pow2 b"
  by (simp add: pow2_powi power_int_increasing)

lemma pow2_zero: "pow2 0 = 1"
  by (simp add: pow2_def)

lemma exponentUp_ge: "e \<le> exponentUp n e x"
  by (induction n e x rule: exponentUp.induct) auto

lemma exponentUp_le: "pow2 e \<le> x \<Longrightarrow> pow2 (exponentUp n e x) \<le> x"
  by (induction n e x rule: exponentUp.induct) auto

lemma exponentDown_ge: "e - int n \<le> exponentDown n e x"
  by (induction n e x rule: exponentDown.induct) auto

lemma exponentDown_le: "pow2 (exponentDown n e x) \<le> x \<or> exponentDown n e x = e - int n"
  by (induction n e x rule: exponentDown.induct) auto

lemma binaryExponent_ge: "- 1022 \<le> binaryExponent x"
  using exponentUp_ge [of 0 1023 x] exponentDown_ge [of "- 1" 1021 x]
  by (simp add: binaryExponent_def)

lemma binaryExponent_scaled:
  assumes "pow2 (- 1074) \<le> x"
  shows "pow2 (binaryExponent x - 52) \<le> x"
proof (cases "1 \<le> x")
  case True
  then have "pow2 (exponentUp 1023 0 x) \<le> x"
    by (intro exponentUp_le) (simp add: pow2_zero)
  moreover have "pow2 (exponentUp 1023 0 x - 52) \<le> pow2 (exponentUp 1023 0 x)"
    by (rule pow2_mono) simp
  ultimately show ?thesis
    using True by (simp add: binaryExponent_def)
next
  case False
  let ?e = "exponentDown 1021 (- 1) x"
  have "pow2 (?e - 52) \<le> x"
  proof (cases "pow2 ?e \<le> x")
    case True
    moreover have "pow2 (?e - 52) \<le> pow2 ?e"
      by (rule pow2_mono) simp
    ultimately show ?thesis by simp
  next
    case False
    then have "?e = - 1022"
      using exponentDown_le [of 1021 "- 1" x] by simp
    then show ?thesis
      using assms by simp
  qed
  then show ?thesis
    using False by (simp add: binaryExponent_def)
qed

lemma roundHalfEven_ge_floor: "\<lfloor>y\<rfloor> \<le> roundHalfEven y"
  by (simp add: roundHalfEven_def Let_def)

lemma roundHalfEven_ge:
  assumes "of_int n \<le> y"
  shows "n \<le> roundHalfEven y"
proof -
  have "n \<le> \<lfloor>y\<rfloor>"
    using assms by (simp add: le_floor_iff)
  then show ?thesis
    using roundHalfEven_ge_floor [of y] by linarith
qed

lemma roundDouble_zero: "roundDouble 0 = 0"
  by (simp add: roundDouble_def)

lemma roundDouble_minus: "roundDouble (- x) = - roundDouble x"
  by (simp add: roundDouble_def Let_def sgn_minus)

lemma roundDouble_grid: "\<exists>k. roundDouble x = of_int k * pow2 (- 1074)"
proof (cases "x = 0")
  case True
  then show ?thesis
    by (intro exI [of _ 0]) (simp add: roundDouble_def)
next
  case False
  define q where "q = binaryExponent \<bar>x\<bar> - 52"
  define r where "r = roundHalfEven (\<bar>x\<bar> / pow2 q)"
  have q: "0 \<le> q + 1074"
    using binaryExponent_ge [of "\<bar>x\<bar>"] by (simp add: q_def)
  have "pow2 q = pow2 ((q + 1074) + (- 1074))"
    by simp
  also have "\<dots> = pow2 (q + 1074) * pow2 (- 1074)"
    by (rule pow2_add)
  also have "pow2 (q + 1074) = of_int (2 ^ nat (q + 1074))"
    using q by (simp add: pow2_def)
  finally have p: "pow2 q = of_int (2 ^ nat (q + 1074)) * pow2 (- 1074)" .
  have "roundDouble x = sgn x * of_int r * pow2 q"
    using False by (simp add: roundDouble_def Let_def q_def r_def)
  moreover have "sgn x = of_int (if 0 < x then 1 else - 1)"
    using False by (simp add: sgn_if)
  ultimately have "roundDouble x =
      of_int ((if 0 < x then 1 else - 1) * r * 2 ^ nat (q + 1074)) * pow2 (- 1074)"
    by (simp only: p of_int_mult mult.assoc)
  then show ?thesis by blast
qed

lemma roundDouble_pos:
  assumes "pow2 (- 1074) \<le> x"
  shows "pow2 (- 1074) \<le> roundDouble x"
proof -
  define q where "q = binaryExponent \<bar>x\<bar> - 52"
  have x: "0 < x"
    using assms pow2_pos [of "- 1074"] by linarith
  then have ax: "\<bar>x\<bar> = x" by simp
  have "pow2 q \<le> x"
    using binaryExponent_scaled [OF assms] by (simp add: q_def ax)
  then have "1 \<le> x / pow2 q"
    using pow2_pos [of q] by (simp add: field_simps)
  then have "1 \<le> roundHalfEven (x / pow2 q)"
    by (intro roundHalfEven_ge) simp
  then have "(1::real) \<le> of_int (roundHalfEven (x / pow2 q))"
    by linarith
  then have "pow2 q \<le> of_int (roundHalfEven (x / pow2 q)) * pow2 q"
    using pow2_pos [of q] by (simp add: field_simps)
  moreover have "pow2 (- 1074) \<le> pow2 q"
    using binaryExponent_ge [of "\<bar>x\<bar>"] by (intro pow2_mono) (simp add: q_def)
  moreover have "roundDouble x = of_int (roundHalfEven (x / pow2 q)) * pow2 q"
    using x by (simp add: roundDouble_def Let_def q_def)
  ultimately show ?thesis by linarith
qed

lemma roundDouble_nonneg: "0 \<le> x \<Longrightarrow> 0 \<le> roundDouble x"
proof -
  assume x: "0 \<le> x"
  have "0 \<le> x / pow2 q" for q
    using x pow2_pos [of q] by simp
  then have "0 \<le> roundHalfEven (x / pow2 q)" for q
    by (intro roundHalfEven_ge) simp
  then have "0 \<le> real_of_int (roundHalfEven (x / pow2 q)) * pow2 q" for q
    using pow2_pos [of q] by (intro mult_nonneg_nonneg) simp_all
  then show ?thesis
    using x by (simp add: roundDouble_def Let_def sgn_if)
qed

lemma roundDouble_ge_one:
  assumes "1 \<le> x"
  shows "1 \<le> roundDouble x"
proof -
  define e where "e = exponentUp 1023 0 x"
  have ax: "\<bar>x\<bar> = x" using assms by simp
  have e: "binaryExponent x = e"
    using assms by (simp add: binaryExponent_def e_def)
  have e0: "0 \<le> e"
    unfolding e_def by (rule exponentUp_ge)
  have "pow2 e \<le> x"
    unfolding e_def using assms by (intro exponentUp_le) (simp add: pow2_zero)
  moreover have pe: "pow2 e = pow2 52 * pow2 (e - 52)"
    using pow2_add [of 52 "e - 52"] by simp
  ultimately have "pow2 52 \<le> x / pow2 (e - 52)"
    using pow2_pos [of "e - 52"] by (simp add: field_simps)
  moreover have "pow2 52 = of_int (2 ^ 52)"
    by (simp add: pow2_def)
  ultimately have "2 ^ 52 \<le> roundHalfEven (x / pow2 (e - 52))"
    by (intro roundHalfEven_ge) simp
  then have "(2::real) ^ 52 \<le> of_int (roundHalfEven (x / pow2 (e - 52)))"
    by (metis of_int_le_iff of_int_numeral of_int_power)
  then have "pow2 52 * pow2 (e - 52) \<le> of_int (roundHalfEven (x / pow2 (e - 52))) * pow2 (e - 52)"
    using pow2_pos [of "e - 52"] by (simp add: pow2_def)
  moreover have "roundDouble x = of_int (roundHalfEven (x / pow2 (e - 52))) * pow2 (e - 52)"
    using assms by (simp add: roundDouble_def Let_def e ax)
  moreover have "1 \<le> pow2 e"
    using pow2_mono [OF e0] by (simp add: pow2_zero)
  ultimately show ?thesis
    using pe by linarith
qed

lemma roundDouble_sign:
  assumes "a = of_int i * pow2 (- 1074)" and "b = of_int j * pow2 (- 1074)"
  shows "(roundDouble (b - a) \<le> 0) = (b \<le> a)"
proof -
  have u: "0 < pow2 (- 1074)" by (rule pow2_pos)
  have d: "b - a = of_int (j - i) * pow2 (- 1074)"
    using assms by (simp add: algebra_simps)
  consider "j = i" | "i < j" | "j < i" by linarith
  then show ?thesis
  proof cases
    case 1
    then show ?thesis using assms by (simp add: roundDouble_zero)
  next
    case 2
    then have "(1::real) \<le> of_int (j - i)" by simp
    then have "1 * pow2 (- 1074) \<le> of_int (j - i) * pow2 (- 1074)"
      using u by (intro mult_right_mono) simp_all
    then have "pow2 (- 1074) \<le> b - a"
      unfolding d by simp
    then have "0 < roundDouble (b - a)" "a < b"
      using roundDouble_pos [of "b - a"] u by linarith+
    then show ?thesis by simp
  next
    case 3
    then have "(1::real) \<le> of_int (i - j)" by simp
    moreover have "a - b = of_int (i - j) * pow2 (- 1074)"
      using assms by (simp add: algebra_simps)
    moreover have "1 * pow2 (- 1074) \<le> of_int (i - j) * pow2 (- 1074)"
      using u \<open>(1::real) \<le> of_int (i - j)\<close> by (intro mult_right_mono) simp_all
    ultimately have "pow2 (- 1074) \<le> a - b"
      by simp
    then have "0 < roundDouble (a - b)" "b < a"
      using roundDouble_pos [of "a - b"] u by linarith+
    moreover have "roundDouble (b - a) = - roundDouble (a - b)"
      using roundDouble_minus [of "a - b"] by simp
    ultimately show ?thesis by simp
  qed
qed

text \<open>
  The comparator of the sort: the sign of the rounded difference of two scores is the order of
  the scores, since two different doubles are at least \<open>2^-1074\<close> apart.
\<close>

lemma score_comparator:
  "(roundDouble (spec_final_score errorText q - spec_final_score errorText p) \<le> 0) =
   (spec_final_score errorText q \<le> spec_final_score errorText p)"
proof -
  obtain i where "spec_final_score errorText p = of_int i * pow2 (- 1074)"
    unfolding spec_final_score_def using roundDouble_grid by blast
  moreover obtain j where "spec_final_score errorText q = of_int j * pow2 (- 1074)"
    unfolding spec_final_score_def using roundDouble_grid by blast
  ultimately show ?thesis
    by (rule roundDouble_sign)
qed

lemma insort_key_map: "insort_key k (h x) (map h ys) = map h (insort_key (\<lambda>a. k (h a)) x ys)"
  by (induction ys) auto

lemma sort_key_map: "sort_key k (map h xs) = map h (sort_key (\<lambda>a. k (h a)) xs)"
  by (induction xs) (auto simp: insort_key_map)

lemma mset_insertByCompare: "mset (insertByCompare c x ys) = add_mset x (mset ys)"
  by (induction ys) auto

lemma mset_sortByCompare: "mset (sortByCompare c xs) = mset xs"
  by (induction xs) (auto simp: mset_insertByCompare)

lemma insertByCompare_insort_key:
  assumes "\<forall>y\<in>set ys. (c x y \<le> 0) = (k x \<le> k y)"
  shows "insertByCompare c x ys = insort_key k x ys"
  using assms by (induction ys) auto

lemma sortByCompare_sort_key:
  assumes "\<forall>x\<in>set xs. \<forall>y\<in>set xs. (c x y \<le> 0) = (k x \<le> k y)"
  shows "sortByCompare c xs = sort_key k xs"
  using assms
proof (induction xs)
  case Nil
  show ?case by simp
next
  case (Cons x xs)
  then have "sortByCompare c xs = sort_key k xs"
    by simp
  moreover have "\<forall>y\<in>set (sort_key k xs). (c x y \<le> 0) = (k x \<le> k y)"
    using Cons.prems by simp
  ultimately show ?case
    by (simp add: insertByCompare_insort_key)
qed

lemma fold_keyword_score:
  "fold (\<lambda>keyword score. if P keyword then score + 2 else score) ks (s :: real) =
   s + 2 * real (length (filter P ks))"
  by (induction ks arbitrary: s) auto

lemma patternScore_spec: "patternScore errorText p = spec_raw_score errorText p"
  by (simp add: patternScore_def spec_raw_score_def fold_keyword_score)

lemma spec_raw_score_nonneg: "0 \<le> spec_raw_score errorText p"
  by (simp add: spec_raw_score_def)

lemma collectMatches_eq:
  "collectMatches errorText ps =
   map (\<lambda>p. (p, spec_final_score errorText p)) (filter (\<lambda>p. spec_raw_score errorText p \<noteq> 0) ps)"
proof (induction ps)
  case Nil
  show ?case by simp
next
  case (Cons p ps)
  have "(patternScore errorText p > 0) = (spec_raw_score errorText p \<noteq> 0)"
    using spec_raw_score_nonneg [of errorText p] by (simp add: patternScore_spec less_le)
  then show ?case
    using Cons.IH by (simp add: Let_def spec_final_score_def patternScore_spec)
qed

lemma getMatchingErrorFixes_mset:
  "mset (getMatchingErrorFixes errorText st) =
     mset (filter (\<lambda>p. spec_raw_score errorText p \<noteq> 0) st)"
proof -
  have "mset (getMatchingErrorFixes errorText st) =
          image_mset fst (mset (collectMatches errorText st))"
    by (simp add: getMatchingErrorFixes_def mset_sortByCompare)
  also have "\<dots> = mset (map fst (collectMatches errorText st))"
    by simp
  also have "map fst (collectMatches errorText st) =
               filter (\<lambda>p. spec_raw_score errorText p \<noteq> 0) st"
    by (simp add: collectMatches_eq o_def)
  finally show ?thesis .
qed

text \<open>
  The sort of the source, driven by its comparator, is the stable sort by descending score.
\<close>

lemma getMatchingErrorFixes_eq:
  "getMatchingErrorFixes errorText st =
     sort_key (\<lambda>p. - spec_final_score errorText p)
       (filter (\<lambda>p. spec_raw_score errorText p \<noteq> 0) st)"
proof -
  let ?score = "spec_final_score errorText"
  let ?matches = "map (\<lambda>p. (p, ?score p)) (filter (\<lambda>p. spec_raw_score errorText p \<noteq> 0) st)"
  have "\<forall>a\<in>set ?matches. \<forall>b\<in>set ?matches.
          (roundDouble (snd b - snd a) \<le> 0) = (- snd a \<le> - snd b)"
    by (auto simp: score_comparator)
  then have "sortByCompare (\<lambda>a b. roundDouble (snd b - snd a)) ?matches =
               sort_key (\<lambda>m. - snd m) ?matches"
    by (rule sortByCompare_sort_key)
  then show ?thesis
    by (simp add: getMatchingErrorFixes_def collectMatches_eq sort_key_map o_def)
qed

lemma spec_final_nonzero_iff:
  assumes "roundDouble (confidence p) = confidence p" and "0 < confidence p"
    and "0 \<le> successCount p"
  shows "(spec_final_score errorText p \<noteq> 0) = (spec_raw_score errorText p \<noteq> 0)"
proof (cases "spec_raw_score errorText p = 0")
  case True
  then show ?thesis
    by (simp add: spec_final_score_def roundDouble_zero)
next
  case False
  let ?u = "pow2 (- 1074)"
  let ?factor = "roundDouble (1 + roundDouble (real_of_int (successCount p) / 10))"
  let ?score1 = "roundDouble (spec_raw_score errorText p * confidence p)"
  have u: "0 < ?u" by (rule pow2_pos)
  obtain k where k: "confidence p = of_int k * ?u"
    using roundDouble_grid [of "confidence p"] assms(1) by auto
  have "0 < k"
    using assms(2) u unfolding k by (simp add: zero_less_mult_iff)
  then have "(1::real) \<le> of_int k" by simp
  then have "1 * ?u \<le> of_int k * ?u"
    using u by (intro mult_right_mono) simp_all
  then have conf: "?u \<le> confidence p"
    by (simp add: k)
  have "(1::real) \<le> (if str_includes errorText (errorPattern p) then 10 else 0)
          + 2 * real (length (filter (\<lambda>k. str_includes (toLowerCase errorText) (toLowerCase k))
                                (errorKeywords p)))"
    using False unfolding spec_raw_score_def
    by (cases "filter (\<lambda>k. str_includes (toLowerCase errorText) (toLowerCase k)) (errorKeywords p)")
       (auto split: if_splits)
  then have raw: "1 \<le> spec_raw_score errorText p"
    by (simp add: spec_raw_score_def)
  have "1 * confidence p \<le> spec_raw_score errorText p * confidence p"
    using raw assms(2) by (intro mult_right_mono) simp_all
  then have "?u \<le> spec_raw_score errorText p * confidence p"
    using conf by simp
  then have score1: "?u \<le> ?score1"
    by (rule roundDouble_pos)
  have "0 \<le> roundDouble (real_of_int (successCount p) / 10)"
    using assms(3) by (intro roundDouble_nonneg) simp
  then have factor: "1 \<le> ?factor"
    by (intro roundDouble_ge_one) simp
  have "?score1 * 1 \<le> ?score1 * ?factor"
    using factor score1 u by (intro mult_left_mono) simp_all
  then have "?u \<le> ?score1 * ?factor"
    using score1 by simp
  then have "?u \<le> roundDouble (?score1 * ?factor)"
    by (rule roundDouble_pos)
  then have "spec_final_score errorText p \<noteq> 0"
    using u by (simp add: spec_final_score_def)
  with False show ?thesis by simp
qed

text \<open>
  Claim C4. For every diagnostic text and store, \<open>getMatchingErrorFixes\<close> returns exactly the
  stored patterns whose raw score (10 for the signature occurring in the text, plus 2 for each
  keyword occurring in it without regard to case) is not zero, each as often as it is stored,
  in descending order of the final score (the raw score times the confidence times
  \<open>1 + successCount / 10\<close>, computed in doubles as the source computes it). Where every
  confidence is a positive double and no success count negative, these are the patterns whose
  final score is not zero.
\<close>

theorem getMatchingErrorFixes_ranking:
  "mset (getMatchingErrorFixes errorText st) =
     mset (filter (\<lambda>p. spec_raw_score errorText p \<noteq> 0) st)
   \<and> sorted_wrt (\<lambda>p q. spec_final_score errorText q \<le> spec_final_score errorText p)
        (getMatchingErrorFixes errorText st)
   \<and> ((\<forall>p\<in>set st. roundDouble (confidence p) = confidence p \<and> 0 < confidence p
                     \<and> 0 \<le> successCount p) \<longrightarrow>
        mset (getMatchingErrorFixes errorText st) =
          mset (filter (\<lambda>p. spec_final_score errorText p \<noteq> 0) st))"
proof (intro conjI impI)
  show "mset (getMatchingErrorFixes errorText st) =
     mset (filter (\<lambda>p. spec_raw_score errorText p \<noteq> 0) st)"
    by (rule getMatchingErrorFixes_mset)
next
  have "sorted (map (\<lambda>p. - spec_final_score errorText p) (getMatchingErrorFixes errorText st))"
    unfolding getMatchingErrorFixes_eq by (rule sorted_sort_key)
  then show "sorted_wrt (\<lambda>p q. spec_final_score errorText q \<le> spec_final_score errorText p)
        (getMatchingErrorFixes errorText st)"
    by (simp add: sorted_map)
next
  assume h: "\<forall>p\<in>set st. roundDouble (confidence p) = confidence p \<and> 0 < confidence p
                     \<and> 0 \<le> successCount p"
  have "filter (\<lambda>p. spec_final_score errorText p \<noteq> 0) st =
        filter (\<lambda>p. spec_raw_score errorText p \<noteq> 0) st"
    using h by (intro filter_cong refl) (simp add: spec_final_nonzero_iff)
  then show "mset (getMatchingErrorFixes errorText st) =
          mset (filter (\<lambda>p. spec_final_score errorText p \<noteq> 0) st)"
    by (simp add: getMatchingErrorFixes_mset)
qed

text \<open>
  Claim C8. For every store, diagnostic text and score \<open>k\<close>, the returned patterns whose final
  score is \<open>k\<close> are, in this order, the matching patterns of the store whose final score is
  \<open>k\<close>: patterns with identical scores, as the source computes them in doubles, keep their
  insertion order.
\<close>

theorem getMatchingErrorFixes_stable:
  "filter (\<lambda>p. spec_final_score errorText p = k) (getMatchingErrorFixes errorText st) =
   filter (\<lambda>p. spec_final_score errorText p = k)
     (filter (\<lambda>p. spec_raw_score errorText p \<noteq> 0) st)"
proof -
  have "filter (\<lambda>p. - spec_final_score errorText p = - k) (getMatchingErrorFixes errorText st) =
        filter (\<lambda>p. - spec_final_score errorText p = - k)
          (filter (\<lambda>p. spec_raw_score errorText p \<noteq> 0) st)"
    unfolding getMatchingErrorFixes_eq by (rule sort_key_stable)
  then show ?thesis by simp
qed

text \<open>
  The store \<open>tieStore\<close>: the doubles \<open>0.3\<close> and \<open>0.1\<close>, the raw scores 2, 6 and 2 and the
  final scores, \<open>0.6\<close> for the first and the third pattern and \<open>0.6000000000000001\<close> for the
  second. The second pattern is returned first and the two others follow in the order of the
  store.
\<close>

lemma tie_confidences:
  "roundDouble (3 / 10) = 5404319552844595 / 18014398509481984"
  "roundDouble (5404319552844595 / 18014398509481984) = 5404319552844595 / 18014398509481984"
  "roundDouble (1 / 10) = 3602879701896397 / 36028797018963968"
  "roundDouble (3602879701896397 / 36028797018963968) = 3602879701896397 / 36028797018963968"
  by code_simp+

lemma tie_raw_scores:
  "spec_raw_score ''alpha beta gamma'' (scoredPattern ''first'' [''alpha''] c) = 2"
  "spec_raw_score ''alpha beta gamma''
     (scoredPattern ''second'' [''alpha'', ''beta'', ''gamma''] c) = 6"
  "spec_raw_score ''alpha beta gamma'' (scoredPattern ''third'' [''alpha''] c) = 2"
  by (simp_all add: spec_raw_score_def scoredPattern_def toLowerCase_def toLowerChar_def)

lemma tie_scores:
  "spec_final_score ''alpha beta gamma''
     (scoredPattern ''first'' [''alpha''] (roundDouble (3 / 10)))
     = 5404319552844595 / 9007199254740992"
  "spec_final_score ''alpha beta gamma''
     (scoredPattern ''second'' [''alpha'', ''beta'', ''gamma''] (roundDouble (1 / 10)))
     = 1351079888211149 / 2251799813685248"
  "spec_final_score ''alpha beta gamma''
     (scoredPattern ''third'' [''alpha''] (roundDouble (3 / 10)))
     = 5404319552844595 / 9007199254740992"
  by code_simp+

lemma tie_order:
  "map pattern_id (getMatchingErrorFixes ''alpha beta gamma'' tieStore) =
     [''second'', ''first'', ''third'']"
proof -
  have "getMatchingErrorFixes ''alpha beta gamma'' tieStore =
          [scoredPattern ''second'' [''alpha'', ''beta'', ''gamma''] (roundDouble (1 / 10)),
           scoredPattern ''first'' [''alpha''] (roundDouble (3 / 10)),
           scoredPattern ''third'' [''alpha''] (roundDouble (3 / 10))]"
    unfolding getMatchingErrorFixes_eq
    by (simp add: tieStore_def tie_raw_scores tie_scores)
  then show ?thesis
    by (simp add: scoredPattern_def)
qed

text \<open>
  In \<open>tieStore\<close> the two patterns with the score \<open>0.6\<close> are returned in the order of the
  store, \<open>first\<close> before \<open>third\<close>.
\<close>

theorem getMatchingErrorFixes_stable_witness:
  "map pattern_id
     (filter (\<lambda>p. spec_final_score ''alpha beta gamma'' p = 5404319552844595 / 9007199254740992)
        (getMatchingErrorFixes ''alpha beta gamma'' tieStore)) = [''first'', ''third'']"
proof -
  have "filter (\<lambda>p. spec_final_score ''alpha beta gamma'' p = 5404319552844595 / 9007199254740992)
          (filter (\<lambda>p. spec_raw_score ''alpha beta gamma'' p \<noteq> 0) tieStore) =
        [scoredPattern ''first'' [''alpha''] (roundDouble (3 / 10)),
         scoredPattern ''third'' [''alpha''] (roundDouble (3 / 10))]"
    by (simp add: tieStore_def tie_raw_scores tie_scores)
  then show ?thesis
    using getMatchingErrorFixes_stable [of "''alpha beta gamma''"
        "5404319552844595 / 9007199254740992" tieStore]
    by (simp add: scoredPattern_def)
qed

text \<open>The same store, whose confidences are positive doubles.\<close>

theorem getMatchingErrorFixes_ranking_witness:
  "mset (getMatchingErrorFixes ''alpha beta gamma'' tieStore) =
     mset (filter (\<lambda>p. spec_final_score ''alpha beta gamma'' p \<noteq> 0) tieStore)"
proof -
  have h: "\<forall>p\<in>set tieStore. roundDouble (confidence p) = confidence p \<and> 0 < confidence p
                     \<and> 0 \<le> successCount p"
    by (simp add: tieStore_def scoredPattern_def tie_confidences)
  show ?thesis
    using getMatchingErrorFixes_ranking [of "''alpha beta gamma''" tieStore] h
    by blast
qed

section \<open>Properties of the build loop\<close>

lemma generated_append: "generated (a @ b) = generated a @ generated b"
  by (induction a rule: generated.induct) auto

lemma analyzed_append: "analyzed (a @ b) = analyzed a @ analyzed b"
  by (induction a rule: analyzed.induct) auto

lemma fixDescriptions_append: "fixDescriptions (a @ b) = fixDescriptions a @ fixDescriptions b"
  by (induction a rule: fixDescriptions.induct) auto

lemma attemptBody_Continue:
  assumes "attemptBody C config options maxAtt s = Continue s'"
  shows "\<exists>ext g. ls_trace s' = ls_trace s @ ext
           \<and> ls_attempt s' = ls_attempt s + 1
           \<and> generated ext = [g] \<and> \<not> success g
           \<and> Progress (ErrorText (join [CHR 0x0A] (errors g))) \<in> set ext
           \<and> ls_fixesApplied s' = ls_fixesApplied s @ fixDescriptions ext
           \<and> length (fixDescriptions ext) = (if ls_attempt s + 1 < maxAtt then 1 else 0)
           \<and> length (analyzed ext) = (if ls_attempt s + 1 < maxAtt then 1 else 0)"
  using assms unfolding attemptBody_def
  by (auto simp: Let_def generated_append fixDescriptions_append analyzed_append
      split: if_splits option.splits prod.splits sum.splits)

lemma attemptBody_Return:
  assumes "attemptBody C config options maxAtt s = Return (res, w', tr')"
  shows "\<exists>ext. tr' = ls_trace s @ ext
           \<and> (generated ext = []
               \<or> (\<exists>g. generated ext = [g] \<and> success g)
               \<or> (\<exists>g. generated ext = [g] \<and> \<not> success g \<and> ls_attempt s + 1 < maxAtt
                       \<and> Progress (ErrorText (join [CHR 0x0A] (errors g))) \<in> set ext))"
  using assms unfolding attemptBody_def
  by (auto simp: Let_def generated_append
      split: if_splits option.splits prod.splits sum.splits list.splits)

lemma executeLoop_trace:
  assumes "executeLoop C config options maxAtt s = (res, w', tr')" and "ls_attempt s \<le> maxAtt"
  shows "\<exists>ext. tr' = ls_trace s @ ext
      \<and> int (length (generated ext)) \<le> maxAtt - ls_attempt s
      \<and> (\<forall>g\<in>set (generated ext). \<not> success g \<longrightarrow>
            Progress (ErrorText (join [CHR 0x0A] (errors g))) \<in> set ext)
      \<and> (int (length (generated ext)) = maxAtt - ls_attempt s
           \<and> (\<forall>g\<in>set (generated ext). \<not> success g) \<longrightarrow>
           res = Inr (allAttemptsFailed maxAtt (ls_fixesApplied s @ fixDescriptions ext))
           \<and> int (length (fixDescriptions ext)) = max 0 (maxAtt - ls_attempt s - 1)
           \<and> length (analyzed ext) = length (fixDescriptions ext))"
  using assms
proof (induction C config options maxAtt s arbitrary: res w' tr' rule: executeLoop.induct)
  case (1 C config options maxAtt s)
  show ?case
  proof (cases "ls_attempt s < maxAtt")
    case False
    with "1.prems" have "ls_attempt s = maxAtt"
      and "res = Inr (allAttemptsFailed (ls_attempt s) (ls_fixesApplied s))"
      and "tr' = ls_trace s"
      by (simp_all add: executeLoop.simps)
    then show ?thesis
      by (intro exI [of _ "[]"]) simp
  next
    case True
    show ?thesis
    proof (cases "attemptBody C config options maxAtt s")
      case (Return r)
      with True "1.prems"(1) have "attemptBody C config options maxAtt s = Return (res, w', tr')"
        by (simp add: executeLoop.simps)
      from attemptBody_Return [OF this] obtain ext where ext: "tr' = ls_trace s @ ext"
        "generated ext = []
           \<or> (\<exists>g. generated ext = [g] \<and> success g)
           \<or> (\<exists>g. generated ext = [g] \<and> \<not> success g \<and> ls_attempt s + 1 < maxAtt
                  \<and> Progress (ErrorText (join [CHR 0x0A] (errors g))) \<in> set ext)"
        by blast
      show ?thesis
        using ext True by (intro exI [of _ ext]) auto
    next
      case (Continue s1)
      from attemptBody_Continue [OF this] obtain ext1 g where ext1:
        "ls_trace s1 = ls_trace s @ ext1" "ls_attempt s1 = ls_attempt s + 1"
        "generated ext1 = [g]" "\<not> success g"
        "Progress (ErrorText (join [CHR 0x0A] (errors g))) \<in> set ext1"
        "ls_fixesApplied s1 = ls_fixesApplied s @ fixDescriptions ext1"
        "length (fixDescriptions ext1) = (if ls_attempt s + 1 < maxAtt then 1 else 0)"
        "length (analyzed ext1) = (if ls_attempt s + 1 < maxAtt then 1 else 0)"
        by blast
      have run1: "executeLoop C config options maxAtt s1 = (res, w', tr')"
        using True Continue "1.prems"(1) by (simp add: executeLoop.simps)
      have le1: "ls_attempt s1 \<le> maxAtt"
        using True ext1(2) by simp
      from "1.IH" [OF True Continue run1 le1] obtain ext2 where ext2:
        "tr' = ls_trace s1 @ ext2"
        "int (length (generated ext2)) \<le> maxAtt - ls_attempt s1"
        "\<forall>g\<in>set (generated ext2). \<not> success g \<longrightarrow>
            Progress (ErrorText (join [CHR 0x0A] (errors g))) \<in> set ext2"
        "int (length (generated ext2)) = maxAtt - ls_attempt s1
           \<and> (\<forall>g\<in>set (generated ext2). \<not> success g) \<longrightarrow>
           res = Inr (allAttemptsFailed maxAtt (ls_fixesApplied s1 @ fixDescriptions ext2))
           \<and> int (length (fixDescriptions ext2)) = max 0 (maxAtt - ls_attempt s1 - 1)
           \<and> length (analyzed ext2) = length (fixDescriptions ext2)"
        by blast
      show ?thesis
        using ext1 ext2 True
        by (intro exI [of _ "ext1 @ ext2"])
           (auto simp: generated_append fixDescriptions_append analyzed_append)
    qed
  qed
qed

lemma attemptBody_always_fails:
  assumes "\<forall>w. \<not> isCancellationRequested C w"
    and "\<forall>folder w. ensureWorkFolder C folder w \<noteq> None"
    and "\<forall>cfg folder w. \<not> success (fst (generate C cfg folder w))"
    and "\<forall>errs cfg path w. \<exists>f. fst (analyzeAndFix C errs cfg path w) = Inr f \<and> applied f"
  shows "\<exists>s'. attemptBody C config options maxAtt s = Continue s'"
proof -
  let ?folder = "orElse (workFolder options) (getDefaultWorkFolder C (ls_world s))"
  obtain w1 where w1: "ensureWorkFolder C ?folder (ls_world s) = Some w1"
    using assms(2) by blast
  let ?cfg = "config\<lparr>mendixProjectPath :=
                (if autoDeploy options = Some True then mendixProject options else None)\<rparr>"
  obtain g w2 where g: "generate C ?cfg ?folder w1 = (g, w2)"
    by (cases "generate C ?cfg ?folder w1")
  have ng: "\<not> success g"
    using assms(3) [rule_format, of ?cfg ?folder w1] g by simp
  let ?path = "orElse (outputPath g) (pathJoin C ?folder (toLowerCase (name config)))"
  obtain fx w3 where fx: "analyzeAndFix C (errors g) config ?path w2 = (fx, w3)"
    by (cases "analyzeAndFix C (errors g) config ?path w2")
  obtain f where f: "fx = Inr f" "applied f"
    using assms(4) [rule_format, of "errors g" config ?path w2] fx by auto
  show ?thesis
    unfolding attemptBody_def using assms(1) w1 g ng fx f
    by (simp add: Let_def)
qed

lemma executeLoop_always_fails:
  assumes "\<forall>w. \<not> isCancellationRequested C w"
    and "\<forall>folder w. ensureWorkFolder C folder w \<noteq> None"
    and "\<forall>cfg folder w. \<not> success (fst (generate C cfg folder w))"
    and "\<forall>errs cfg path w. \<exists>f. fst (analyzeAndFix C errs cfg path w) = Inr f \<and> applied f"
    and "ls_attempt s \<le> maxAtt"
  shows "\<exists>fixes w' tr'.
           executeLoop C config options maxAtt s = (Inr (allAttemptsFailed maxAtt fixes), w', tr')
           \<and> int (length (generated tr')) =
               int (length (generated (ls_trace s))) + (maxAtt - ls_attempt s)
           \<and> int (length (analyzed tr')) =
               int (length (analyzed (ls_trace s))) + max 0 (maxAtt - ls_attempt s - 1)"
  using assms(5)
proof (induction "nat (maxAtt - ls_attempt s)" arbitrary: s)
  case 0
  then have "ls_attempt s = maxAtt" by simp
  then show ?case
    by (auto simp: executeLoop.simps)
next
  case (Suc n)
  then have lt: "ls_attempt s < maxAtt" by simp
  obtain s1 where s1: "attemptBody C config options maxAtt s = Continue s1"
    using attemptBody_always_fails [OF assms(1-4)] by blast
  from attemptBody_Continue [OF s1] obtain ext g where ext:
    "ls_trace s1 = ls_trace s @ ext" "ls_attempt s1 = ls_attempt s + 1"
    "generated ext = [g]"
    "length (analyzed ext) = (if ls_attempt s + 1 < maxAtt then 1 else 0)"
    by blast
  have "n = nat (maxAtt - ls_attempt s1)" and "ls_attempt s1 \<le> maxAtt"
    using Suc.hyps(2) lt ext(2) by simp_all
  from Suc.hyps(1) [OF this] obtain fxs w' tr' where run:
    "executeLoop C config options maxAtt s1 = (Inr (allAttemptsFailed maxAtt fxs), w', tr')"
    "int (length (generated tr')) =
       int (length (generated (ls_trace s1))) + (maxAtt - ls_attempt s1)"
    "int (length (analyzed tr')) =
       int (length (analyzed (ls_trace s1))) + max 0 (maxAtt - ls_attempt s1 - 1)"
    by blast
  have "executeLoop C config options maxAtt s = executeLoop C config options maxAtt s1"
    using lt s1 by (simp add: executeLoop.simps)
  then show ?case
    using run ext lt by (auto simp: generated_append analyzed_append)
qed

lemma execute_always_fails:
  assumes "\<forall>w. \<not> isCancellationRequested C w"
    and "\<forall>folder w. ensureWorkFolder C folder w \<noteq> None"
    and "\<forall>cfg folder w. \<not> success (fst (generate C cfg folder w))"
    and "\<forall>errs cfg path w. \<exists>f. fst (analyzeAndFix C errs cfg path w) = Inr f \<and> applied f"
    and "0 \<le> maxAttemptsOrDefault options"
  shows "\<exists>fixes w' tr.
           execute C config options w =
             (Inr (allAttemptsFailed (maxAttemptsOrDefault options) fixes), w', tr)
           \<and> int (length (generated tr)) = maxAttemptsOrDefault options
           \<and> int (length (analyzed tr)) = max 0 (maxAttemptsOrDefault options - 1)"
  unfolding execute_def
  using executeLoop_always_fails [OF assms(1-4), of
      "\<lparr>ls_attempt = 0, ls_fixesApplied = [], ls_world = w, ls_trace = []\<rparr>"
      "maxAttemptsOrDefault options" config options] assms(5)
  by simp

lemma execute_generated_bound:
  "int (length (generated (snd (snd (execute C config options w))))) \<le>
     max 0 (maxAttemptsOrDefault options)"
proof (cases "0 \<le> maxAttemptsOrDefault options")
  case True
  obtain res w' tr where run: "execute C config options w = (res, w', tr)"
    by (cases "execute C config options w") auto
  from executeLoop_trace [OF run [unfolded execute_def]] True
  show ?thesis using run by auto
next
  case False
  then show ?thesis
    by (simp add: execute_def executeLoop.simps)
qed

text \<open>
  The recording collaborators. A run with them is the run with the collaborators themselves,
  with the record carried along; and the record holds the executor results and the fix-chain
  outcomes of the trace, in the same order.
\<close>

lemma generateCalls_append: "generateCalls (a @ b) = generateCalls a @ generateCalls b"
  by (induction a rule: generateCalls.induct) auto

lemma analyzeCalls_append: "analyzeCalls (a @ b) = analyzeCalls a @ analyzeCalls b"
  by (induction a rule: analyzeCalls.induct) auto

lemma recording_simps [simp]:
  "isCancellationRequested (recording C) (w, l) = isCancellationRequested C w"
  "getDefaultWorkFolder (recording C) (w, l) = getDefaultWorkFolder C w"
  "ensureWorkFolder (recording C) folder (w, l) =
     map_option (\<lambda>w'. (w', l)) (ensureWorkFolder C folder w)"
  "generate (recording C) cfg folder (w, l) =
     (fst (generate C cfg folder w),
      (snd (generate C cfg folder w), l @ [GenerateCall cfg folder (fst (generate C cfg folder w))]))"
  "analyzeAndFix (recording C) errs cfg path (w, l) =
     (fst (analyzeAndFix C errs cfg path w),
      (snd (analyzeAndFix C errs cfg path w),
       l @ [AnalyzeCall errs cfg path (fst (analyzeAndFix C errs cfg path w))]))"
  "pathJoin (recording C) = pathJoin C"
  by (simp_all add: recording_def split: prod.splits)

lemma attemptBody_recording_Continue:
  assumes "attemptBody (recording C) config options maxAtt s = Continue s'" and "recordAgrees s"
  shows "recordAgrees s'"
  using assms unfolding attemptBody_def recordAgrees_def
  by (cases "ls_world s")
     (auto simp: Let_def generated_append analyzed_append generateCalls_append analyzeCalls_append
       split: if_splits option.splits prod.splits sum.splits)

lemma attemptBody_recording_Return:
  assumes "attemptBody (recording C) config options maxAtt s = Return (res, w', tr')"
    and "recordAgrees s"
  shows "generated tr' = generateCalls (snd w') \<and> analyzed tr' = analyzeCalls (snd w')"
proof -
  obtain w l where wl: "ls_world s = (w, l)"
    by (cases "ls_world s")
  show ?thesis
    using assms unfolding attemptBody_def recordAgrees_def
    by (auto simp: wl Let_def generated_append analyzed_append generateCalls_append
        analyzeCalls_append
        split: if_splits option.splits prod.splits sum.splits list.splits)
qed

lemma attemptBody_withoutRecord:
  "attemptBody C config options maxAtt (withoutRecord s) =
     (case attemptBody (recording C) config options maxAtt s of
        Return (res, w, tr) \<Rightarrow> Return (res, fst w, tr)
      | Continue s' \<Rightarrow> Continue (withoutRecord s'))"
  unfolding attemptBody_def withoutRecord_def
  by (cases "ls_world s")
     (auto simp: Let_def split: if_splits option.splits prod.splits sum.splits list.splits)

lemma executeLoop_recording_agrees:
  assumes "executeLoop (recording C) config options maxAtt s = (res, w', tr')"
    and "recordAgrees s"
  shows "generated tr' = generateCalls (snd w') \<and> analyzed tr' = analyzeCalls (snd w')"
  using assms
proof (induction "nat (maxAtt - ls_attempt s)" arbitrary: s)
  case 0
  then have "\<not> ls_attempt s < maxAtt" by simp
  with "0.prems" show ?case
    by (auto simp: executeLoop.simps recordAgrees_def)
next
  case (Suc n)
  then have lt: "ls_attempt s < maxAtt" by simp
  show ?case
  proof (cases "attemptBody (recording C) config options maxAtt s")
    case (Return r)
    with lt Suc.prems(1) have "attemptBody (recording C) config options maxAtt s = Return (res, w', tr')"
      by (simp add: executeLoop.simps)
    then show ?thesis
      using Suc.prems(2) by (rule attemptBody_recording_Return)
  next
    case (Continue s1)
    have a1: "ls_attempt s1 = ls_attempt s + 1"
      using Continue by (rule attemptBody_Continue_attempt)
    have "n = nat (maxAtt - ls_attempt s1)"
      using Suc.hyps(2) a1 by simp
    moreover have "executeLoop (recording C) config options maxAtt s1 = (res, w', tr')"
      using lt Continue Suc.prems(1) by (simp add: executeLoop.simps)
    moreover have "recordAgrees s1"
      using Continue Suc.prems(2) by (rule attemptBody_recording_Continue)
    ultimately show ?thesis
      by (rule Suc.hyps(1))
  qed
qed

lemma executeLoop_withoutRecord:
  "executeLoop C config options maxAtt (withoutRecord s) =
     (case executeLoop (recording C) config options maxAtt s of (res, w, tr) \<Rightarrow> (res, fst w, tr))"
proof (induction "nat (maxAtt - ls_attempt s)" arbitrary: s)
  case 0
  then have ge: "\<not> ls_attempt s < maxAtt" by simp
  have a: "executeLoop (recording C) config options maxAtt s =
             (Inr (allAttemptsFailed (ls_attempt s) (ls_fixesApplied s)), ls_world s, ls_trace s)"
    using ge by (subst executeLoop.simps) simp
  have b: "executeLoop C config options maxAtt (withoutRecord s) =
             (Inr (allAttemptsFailed (ls_attempt s) (ls_fixesApplied s)),
              fst (ls_world s), ls_trace s)"
    using ge by (subst executeLoop.simps) (simp add: withoutRecord_def)
  show ?case
    by (simp add: a b)
next
  case (Suc n)
  then have lt: "ls_attempt s < maxAtt" by simp
  then have lt': "ls_attempt (withoutRecord s) < maxAtt"
    by (simp add: withoutRecord_def)
  show ?case
  proof (cases "attemptBody (recording C) config options maxAtt s")
    case (Return r)
    obtain res w tr where r: "r = (res, w, tr)" by (cases r)
    have a: "executeLoop (recording C) config options maxAtt s = (res, w, tr)"
      using lt Return r by (subst executeLoop.simps) simp
    have "attemptBody C config options maxAtt (withoutRecord s) = Return (res, fst w, tr)"
      using Return r by (simp add: attemptBody_withoutRecord)
    then have b: "executeLoop C config options maxAtt (withoutRecord s) = (res, fst w, tr)"
      using lt' by (subst executeLoop.simps) simp
    show ?thesis
      by (simp add: a b)
  next
    case (Continue s1)
    have a1: "ls_attempt s1 = ls_attempt s + 1"
      using Continue by (rule attemptBody_Continue_attempt)
    have n: "n = nat (maxAtt - ls_attempt s1)"
      using Suc.hyps(2) a1 by simp
    have a: "executeLoop (recording C) config options maxAtt s =
               executeLoop (recording C) config options maxAtt s1"
      using lt Continue by (subst executeLoop.simps) simp
    have "attemptBody C config options maxAtt (withoutRecord s) = Continue (withoutRecord s1)"
      using Continue by (simp add: attemptBody_withoutRecord)
    then have b: "executeLoop C config options maxAtt (withoutRecord s) =
               executeLoop C config options maxAtt (withoutRecord s1)"
      using lt' by (subst executeLoop.simps) simp
    show ?thesis
      unfolding a b by (rule Suc.hyps(1) [OF n])
  qed
qed

lemma execute_recording:
  "execute C config options w =
     (case execute (recording C) config options (w, l) of (res, w', tr) \<Rightarrow> (res, fst w', tr))"
  unfolding execute_def
  using executeLoop_withoutRecord [of C config options "maxAttemptsOrDefault options"
      "\<lparr>ls_attempt = 0, ls_fixesApplied = [], ls_world = (w, l), ls_trace = []\<rparr>"]
  by (simp add: withoutRecord_def)

lemma execute_recording_agrees:
  assumes "execute (recording C) config options (w, []) = (res, (w', calls), tr)"
  shows "generated tr = generateCalls calls \<and> analyzed tr = analyzeCalls calls"
  using executeLoop_recording_agrees [OF assms [unfolded execute_def]]
  by (simp add: recordAgrees_def)

lemma recording_always_fails:
  assumes "\<forall>w. \<not> isCancellationRequested C w"
    and "\<forall>folder w. ensureWorkFolder C folder w \<noteq> None"
    and "\<forall>cfg folder w. \<not> success (fst (generate C cfg folder w))"
    and "\<forall>errs cfg path w. \<exists>f. fst (analyzeAndFix C errs cfg path w) = Inr f \<and> applied f"
  shows "\<forall>w. \<not> isCancellationRequested (recording C) w"
    and "\<forall>folder w. ensureWorkFolder (recording C) folder w \<noteq> None"
    and "\<forall>cfg folder w. \<not> success (fst (generate (recording C) cfg folder w))"
    and "\<forall>errs cfg path w. \<exists>f. fst (analyzeAndFix (recording C) errs cfg path w) = Inr f \<and> applied f"
  using assms by (auto simp: split_paired_all)

lemma execute_recording_always_fails:
  assumes "\<forall>w. \<not> isCancellationRequested C w"
    and "\<forall>folder w. ensureWorkFolder C folder w \<noteq> None"
    and "\<forall>cfg folder w. \<not> success (fst (generate C cfg folder w))"
    and "\<forall>errs cfg path w. \<exists>f. fst (analyzeAndFix C errs cfg path w) = Inr f \<and> applied f"
    and "0 \<le> maxAttemptsOrDefault options"
  shows "\<exists>r w' calls tr.
           execute (recording C) config options (w, []) = (Inr r, (w', calls), tr)
           \<and> execute C config options w = (Inr r, w', tr)
           \<and> int (length (generateCalls calls)) = maxAttemptsOrDefault options
           \<and> int (length (analyzeCalls calls)) = max 0 (maxAttemptsOrDefault options - 1)
           \<and> generated tr = generateCalls calls
           \<and> \<not> success r \<and> attempts r = maxAttemptsOrDefault options"
proof -
  note rec = recording_always_fails [OF assms(1-4)]
  from execute_always_fails [OF rec assms(5), of config "(w, [])"]
  obtain fxs ww tr where run:
    "execute (recording C) config options (w, []) =
       (Inr (allAttemptsFailed (maxAttemptsOrDefault options) fxs), ww, tr)"
    "int (length (generated tr)) = maxAttemptsOrDefault options"
    "int (length (analyzed tr)) = max 0 (maxAttemptsOrDefault options - 1)"
    by blast
  obtain w' calls where ww: "ww = (w', calls)"
    by (cases ww)
  have agree: "generated tr = generateCalls calls \<and> analyzed tr = analyzeCalls calls"
    using run(1) unfolding ww by (rule execute_recording_agrees)
  have plain: "execute C config options w =
                 (Inr (allAttemptsFailed (maxAttemptsOrDefault options) fxs), w', tr)"
    using execute_recording [of C config options w "[]"] run(1) ww by simp
  show ?thesis
    using run ww agree plain by (auto simp: allAttemptsFailed_def)
qed

lemma execute_recording_bound:
  "int (length (generateCalls (snd (fst (snd (execute (recording C) config options (w, []))))))) \<le>
     max 0 (maxAttemptsOrDefault options)"
proof -
  obtain res w' calls tr where run:
    "execute (recording C) config options (w, []) = (res, (w', calls), tr)"
    by (metis prod.collapse)
  have "generated tr = generateCalls calls"
    using execute_recording_agrees [OF run] by simp
  then show ?thesis
    using execute_generated_bound [of "recording C" config options "(w, [])"] run by simp
qed

text \<open>
  Claim C5. For every \<open>N \<ge> 1\<close>: with \<open>maxAttempts = N\<close>, an executor that reports failure on
  every invocation and a fix chain that reports an applied fix on every consultation (the token
  never cancelled, the work folder present or creatable), \<open>execute\<close> returns a failure with
  \<open>attempts = N\<close>, and it has invoked the executor exactly \<open>N\<close> times: run with the recording
  collaborators it returns the same result, state and trace, and the record of the invocations
  of \<open>generate\<close> has length \<open>N\<close> and holds the executor results of the trace.
\<close>

theorem execute_bounded_retries:
  assumes "1 \<le> N" and "maxAttempts options = Some N"
    and "\<forall>w. \<not> isCancellationRequested C w"
    and "\<forall>folder w. ensureWorkFolder C folder w \<noteq> None"
    and "\<forall>cfg folder w. \<not> success (fst (generate C cfg folder w))"
    and "\<forall>errs cfg path w. \<exists>f. fst (analyzeAndFix C errs cfg path w) = Inr f \<and> applied f"
  shows "\<exists>r w' calls tr.
           execute (recording C) config options (w, []) = (Inr r, (w', calls), tr)
           \<and> execute C config options w = (Inr r, w', tr)
           \<and> int (length (generateCalls calls)) = N
           \<and> generated tr = generateCalls calls
           \<and> \<not> success r \<and> attempts r = N"
proof -
  have M: "maxAttemptsOrDefault options = N"
    using assms(1,2) by (simp add: maxAttemptsOrDefault_def)
  from execute_recording_always_fails [OF assms(3-6), of options config w] M assms(1)
  show ?thesis
    by auto
qed

text \<open>The test doubles with \<open>maxAttempts = 2\<close>.\<close>

theorem execute_bounded_retries_witness:
  "(case execute (recording stubCollaborators) stubConfig (stubOptions (Some 2)) ((), []) of
      (res, (w', calls), tr) \<Rightarrow>
        (map_sum id attempts res, map_sum id success res, length (generateCalls calls))) =
     (Inr 2, Inr False, 2)"
proof -
  have "\<exists>r w' calls tr.
           execute (recording stubCollaborators) stubConfig (stubOptions (Some 2)) ((), []) =
             (Inr r, (w', calls), tr)
           \<and> execute stubCollaborators stubConfig (stubOptions (Some 2)) () = (Inr r, w', tr)
           \<and> int (length (generateCalls calls)) = 2
           \<and> generated tr = generateCalls calls
           \<and> \<not> success r \<and> attempts r = 2"
    by (rule execute_bounded_retries)
       (simp_all add: stubCollaborators_def stubOptions_def stubFailure_def)
  then show ?thesis by auto
qed

text \<open>
  Claim C9. When \<open>options.maxAttempts\<close> is 0 or absent, the bound of the loop is 3: whatever
  the collaborators do, the record of a run holds at most three invocations of the executor
  (not none, as a bound of 0 would give), and with an executor that always fails and a fix
  chain that always applies a fix (no cancellation, work folder creatable) \<open>execute\<close> invokes
  the executor exactly three times and the result has \<open>attempts = 3\<close>.
\<close>

theorem execute_falsy_maxAttempts:
  assumes "maxAttempts options = Some 0 \<or> maxAttempts options = None"
  shows "maxAttemptsOrDefault options = 3
     \<and> length (generateCalls (snd (fst (snd (execute (recording C) config options (w, [])))))) \<le> 3
     \<and> ((\<forall>w. \<not> isCancellationRequested C w)
          \<and> (\<forall>folder w. ensureWorkFolder C folder w \<noteq> None)
          \<and> (\<forall>cfg folder w. \<not> success (fst (generate C cfg folder w)))
          \<and> (\<forall>errs cfg path w. \<exists>f. fst (analyzeAndFix C errs cfg path w) = Inr f \<and> applied f)
        \<longrightarrow> (\<exists>r w' calls tr.
                execute (recording C) config options (w, []) = (Inr r, (w', calls), tr)
                \<and> execute C config options w = (Inr r, w', tr)
                \<and> length (generateCalls calls) = 3
                \<and> generated tr = generateCalls calls
                \<and> attempts r = 3))"
proof -
  have M: "maxAttemptsOrDefault options = 3"
    using assms by (auto simp: maxAttemptsOrDefault_def)
  have bound: "length (generateCalls (snd (fst (snd (execute (recording C) config options (w, [])))))) \<le> 3"
    using execute_recording_bound [of C config options w] M by simp
  have "\<exists>r w' calls tr.
                execute (recording C) config options (w, []) = (Inr r, (w', calls), tr)
                \<and> execute C config options w = (Inr r, w', tr)
                \<and> length (generateCalls calls) = 3
                \<and> generated tr = generateCalls calls
                \<and> attempts r = 3"
    if h: "\<forall>w. \<not> isCancellationRequested C w"
      "\<forall>folder w. ensureWorkFolder C folder w \<noteq> None"
      "\<forall>cfg folder w. \<not> success (fst (generate C cfg folder w))"
      "\<forall>errs cfg path w. \<exists>f. fst (analyzeAndFix C errs cfg path w) = Inr f \<and> applied f"
    using execute_recording_always_fails [OF h, of options config w] M
    by auto
  with M bound show ?thesis by blast
qed

text \<open>The test doubles with \<open>maxAttempts = 0\<close>.\<close>

theorem execute_falsy_maxAttempts_witness:
  "maxAttemptsOrDefault (stubOptions (Some 0)) = 3
   \<and> (case execute (recording stubCollaborators) stubConfig (stubOptions (Some 0)) ((), []) of
        (res, (w', calls), tr) \<Rightarrow> (map_sum id attempts res, length (generateCalls calls))) =
       (Inr 3, 3)"
proof -
  have a: "maxAttempts (stubOptions (Some 0)) = Some 0 \<or> maxAttempts (stubOptions (Some 0)) = None"
    by (simp add: stubOptions_def)
  have h: "(\<forall>w. \<not> isCancellationRequested stubCollaborators w)
          \<and> (\<forall>folder w. ensureWorkFolder stubCollaborators folder w \<noteq> None)
          \<and> (\<forall>cfg folder w. \<not> success (fst (generate stubCollaborators cfg folder w)))
          \<and> (\<forall>errs cfg path w. \<exists>f. fst (analyzeAndFix stubCollaborators errs cfg path w) = Inr f \<and> applied f)"
    by (simp add: stubCollaborators_def stubFailure_def)
  from execute_falsy_maxAttempts [OF a, of stubCollaborators stubConfig "()"] h
  show ?thesis by auto
qed

text \<open>
  Claim C7. At the top of any iteration of the loop (any values of the loop variables with
  \<open>attempt < maxAttempts\<close>), if the token reads cancelled then \<open>execute\<close> returns at once the
  cancelled result, with the fixes recorded so far and nothing added, the state of the
  collaborators untouched and no event added to the trace: neither the executor nor the fix
  chain is invoked.
\<close>

theorem executeLoop_cancellation:
  assumes "isCancellationRequested C (ls_world s)" and "ls_attempt s < maxAtt"
  shows "executeLoop C config options maxAtt s =
           (Inr (cancelledResult (ls_attempt s + 1) (ls_fixesApplied s)), ls_world s, ls_trace s)"
  using assms by (simp add: executeLoop.simps attemptBody_def Let_def)

lemma maxAttemptsOrDefault_nonzero: "maxAttemptsOrDefault options \<noteq> 0"
  by (simp add: maxAttemptsOrDefault_def split: option.splits)

text \<open>
  What \<open>execute\<close> returns when the attempts are exhausted, for any collaborators: if the
  executor was invoked \<open>maxAttempts\<close> times and failed each time, the result is a failure with
  the attempt count and, in \<open>fixesApplied\<close>, the descriptions in order of the fixes that the
  fix chain applied, one after each failure but the last. Its \<open>errors\<close> are the one line
  \<open>Build failed after N attempts\<close>, whatever the executor reported: the diagnostic text of
  each failed attempt went to the progress callback and nowhere else.
\<close>

lemma execute_exhausted_result:
  assumes "execute C config options w = (res, w', tr)"
    and "int (length (generated tr)) = maxAttemptsOrDefault options"
    and "\<forall>g\<in>set (generated tr). \<not> success g"
  shows "\<exists>r. res = Inr r \<and> \<not> success r
           \<and> attempts r = maxAttemptsOrDefault options
           \<and> errors r = [''Build failed after '' @ show_int (maxAttemptsOrDefault options)
                           @ '' attempts'']
           \<and> fixesApplied r = fixDescriptions tr
           \<and> int (length (fixesApplied r)) = maxAttemptsOrDefault options - 1
           \<and> length (analyzed tr) = length (fixesApplied r)
           \<and> (\<forall>g\<in>set (generated tr).
                 Progress (ErrorText (join [CHR 0x0A] (errors g))) \<in> set tr)"
proof -
  let ?M = "maxAttemptsOrDefault options"
  have M: "1 \<le> ?M"
    using assms(2) maxAttemptsOrDefault_nonzero [of options] by linarith
  from executeLoop_trace [OF assms(1) [unfolded execute_def]] M
  have *: "int (length (generated tr)) = ?M \<and> (\<forall>g\<in>set (generated tr). \<not> success g) \<longrightarrow>
           res = Inr (allAttemptsFailed ?M (fixDescriptions tr))
           \<and> int (length (fixDescriptions tr)) = max 0 (?M - 1)
           \<and> length (analyzed tr) = length (fixDescriptions tr)"
    and **: "\<forall>g\<in>set (generated tr). \<not> success g \<longrightarrow>
            Progress (ErrorText (join [CHR 0x0A] (errors g))) \<in> set tr"
    by auto
  from * assms(2,3) have res: "res = Inr (allAttemptsFailed ?M (fixDescriptions tr))"
    and len: "int (length (fixDescriptions tr)) = max 0 (?M - 1)"
    and ana: "length (analyzed tr) = length (fixDescriptions tr)"
    by blast+
  show ?thesis
    using res len ana M ** assms(3) by (simp add: allAttemptsFailed_def)
qed

text \<open>
  Claim C1 does not hold of the code. With \<open>maxAttempts = 2\<close> the executor of the test doubles
  is invoked twice and fails twice with the diagnostic \<open>TS2304: Cannot find name React\<close>, and
  the fix chain applies \<open>Added missing React imports\<close> in between. The result that \<open>execute\<close>
  returns is a failure with \<open>attempts = 2\<close> and that fix in \<open>fixesApplied\<close>, as the claim
  says; its \<open>errors\<close>, which are all the result has of diagnostics, are the one line
  \<open>Build failed after 2 attempts\<close>, and the diagnostic that the executor reported is not in it.
\<close>

theorem execute_exhausted_drops_diagnostics:
  "(case execute (recording stubCollaborators) stubConfig (stubOptions (Some 2)) ((), []) of
      (res, (w', calls), tr) \<Rightarrow>
        (map errors (generateCalls calls), map_sum id success res, map_sum id attempts res,
         map_sum id fixesApplied res, map_sum id errors res, map_sum id warnings res)) =
     ([ [''TS2304: Cannot find name React''], [''TS2304: Cannot find name React''] ],
      Inr False, Inr 2, Inr [''Added missing React imports''],
      Inr [''Build failed after 2 attempts''], Inr [])
   \<and> \<not> str_includes ''Build failed after 2 attempts'' ''TS2304: Cannot find name React''"
  by (simp add: execute_def executeLoop.simps attemptBody_def stubCollaborators_def
      stubConfig_def stubOptions_def stubFailure_def maxAttemptsOrDefault_def Let_def
      allAttemptsFailed_def show_int_def show_nat.simps digit_char_def)

text \<open>A token cancelled before the first attempt.\<close>

theorem executeLoop_cancellation_witness:
  "execute (stubCollaborators\<lparr>isCancellationRequested := (\<lambda>w. True)\<rparr>) stubConfig
     (stubOptions (Some 2)) () = (Inr (cancelledResult 1 []), (), [])"
proof -
  let ?C = "stubCollaborators\<lparr>isCancellationRequested := (\<lambda>w. True)\<rparr>"
  let ?s = "\<lparr>ls_attempt = 0, ls_fixesApplied = [], ls_world = (), ls_trace = []\<rparr>"
  have h1: "isCancellationRequested ?C (ls_world ?s)" by simp
  have h2: "ls_attempt ?s < 2" by simp
  from executeLoop_cancellation [OF h1 h2, of stubConfig "stubOptions (Some 2)"]
  show ?thesis
    by (simp add: execute_def maxAttemptsOrDefault_def stubOptions_def)
qed

section \<open>Properties of the fix strategies\<close>

lemma str_includes_self_prefix: "str_includes (r @ c) r"
proof (cases "r @ c")
  case Nil
  then show ?thesis by simp
next
  case (Cons a l)
  have "prefix r (r @ c)" by simp
  then have "prefix r (a # l)" by (simp only: Cons)
  then show ?thesis by (simp add: Cons)
qed

lemma occurrences_absent: "\<not> str_includes c r \<Longrightarrow> occurrences r c = 0"
proof (induction c)
  case Nil
  show ?case by (simp add: occurrences.simps)
next
  case (Cons x xs)
  then have "\<not> prefix r (x # xs)" and "occurrences r xs = 0"
    by simp_all
  then show ?case
    by (subst occurrences.simps) simp
qed

lemma occurrences_prepended:
  assumes "r \<noteq> []" and "\<not> str_includes c r"
  shows "occurrences r (r @ c) = 1"
  using assms by (subst occurrences.simps) (simp add: occurrences_absent)

lemma editContent_prepend:
  "r \<noteq> [] \<Longrightarrow> editContent [] r c = (if \<not> str_includes c r then (r @ c, True) else (c, False))"
  by (simp add: editContent_def)

lemma editFiles_eq:
  "editFiles fixFile search rep files a =
     (map (\<lambda>(f, c). (f, if fileMatches fixFile f then fst (editContent search rep c) else c)) files,
      a \<or> (\<exists>(f, c)\<in>set files. fileMatches fixFile f \<and> snd (editContent search rep c)))"
  by (induction files arbitrary: a) (auto simp: Let_def split: prod.splits)

lemma applyNucleusFix_prepend:
  assumes "fix_type (pattern_fix p) = FileEdit"
    and "fix_file (pattern_fix p) = Some fixFile" and "fixFile \<noteq> []"
    and "fix_search (pattern_fix p) = Some []"
    and "fix_replace (pattern_fix p) = Some r" and "r \<noteq> []"
    and "srcDir d = Some files"
  shows "applyNucleusFix p d =
           ((\<exists>(f, c)\<in>set files. fileMatches fixFile f \<and> \<not> str_includes c r),
            d\<lparr>srcDir := Some (prependedFiles fixFile r files)\<rparr>)"
proof -
  obtain x xs where x: "fixFile = x # xs"
    using assms(3) by (cases fixFile) auto
  have m: "map (\<lambda>(f, c). (f, if fileMatches fixFile f then fst (editContent [] r c) else c)) files
           = prependedFiles fixFile r files"
    unfolding prependedFiles_def using assms(6)
    by (intro map_cong refl) (auto simp: editContent_prepend)
  have e: "(\<exists>(f, c)\<in>set files. fileMatches fixFile f \<and> snd (editContent [] r c))
           = (\<exists>(f, c)\<in>set files. fileMatches fixFile f \<and> \<not> str_includes c r)"
    using assms(6) by (auto simp: editContent_prepend)
  show ?thesis
    unfolding applyNucleusFix_def
    using assms(1,2,4,5,7) x m e
    by (simp add: Let_def editFiles_eq)
qed

lemma prependedFiles_idem:
  "prependedFiles fixFile r (prependedFiles fixFile r files) = prependedFiles fixFile r files"
  unfolding prependedFiles_def
  by (induction files) (auto simp: str_includes_self_prefix)

lemma prependedFiles_none_left:
  "\<not> (\<exists>(f, c)\<in>set (prependedFiles fixFile r files). fileMatches fixFile f \<and> \<not> str_includes c r)"
  unfolding prependedFiles_def
  by (induction files) (auto simp: str_includes_self_prefix split: if_splits)

lemma prependedFiles_once:
  assumes "r \<noteq> []"
  shows "list_all2
           (\<lambda>(f, c) (f', c'). f' = f \<and>
              (if fileMatches fixFile f \<and> \<not> str_includes c r
               then c' = r @ c \<and> occurrences r c' = 1 else c' = c))
           files (prependedFiles fixFile r files)"
  unfolding prependedFiles_def
  by (induction files) (auto simp: occurrences_prepended [OF assms])

text \<open>
  Claim C6. Take a \<open>file-edit\<close> fix with a file specification, an empty search text and a
  non-empty replace text \<open>r\<close>, and a widget directory with a \<open>src\<close> folder. The second
  application of the fix reports \<open>false\<close> and leaves the directory exactly as the first left
  it. After them every file that the specification matches and that did not contain \<open>r\<close> is
  \<open>r\<close> followed by its old content, in which \<open>r\<close> occurs once; every other file is unchanged.
\<close>

theorem applyNucleusFix_prepend_idempotent:
  assumes "fix_type (pattern_fix p) = FileEdit"
    and "fix_file (pattern_fix p) = Some fixFile" and "fixFile \<noteq> []"
    and "fix_search (pattern_fix p) = Some []"
    and "fix_replace (pattern_fix p) = Some r" and "r \<noteq> []"
    and "srcDir d = Some files"
  shows "applyNucleusFix p (snd (applyNucleusFix p d)) = (False, snd (applyNucleusFix p d))
     \<and> srcDir (snd (applyNucleusFix p d)) = Some (prependedFiles fixFile r files)
     \<and> list_all2
          (\<lambda>(f, c) (f', c'). f' = f \<and>
             (if fileMatches fixFile f \<and> \<not> str_includes c r
              then c' = r @ c \<and> occurrences r c' = 1 else c' = c))
          files (prependedFiles fixFile r files)"
proof -
  let ?d1 = "d\<lparr>srcDir := Some (prependedFiles fixFile r files)\<rparr>"
  have one: "snd (applyNucleusFix p d) = ?d1"
    by (simp add: applyNucleusFix_prepend [OF assms])
  have src1: "srcDir ?d1 = Some (prependedFiles fixFile r files)"
    by simp
  have two: "applyNucleusFix p ?d1 = (False, ?d1)"
    using applyNucleusFix_prepend [OF assms(1-6) src1] prependedFiles_none_left [of fixFile r files]
    by (simp add: prependedFiles_idem)
  show ?thesis
    using one two prependedFiles_once [OF assms(6)] by simp
qed

text \<open>The built-in fix \<open>missing-react-import\<close> applied twice to a component without the import.\<close>

theorem applyNucleusFix_prepend_idempotent_witness:
  "srcDir (snd (applyNucleusFix (hd (defaultErrorFixes ''t0''))
             (snd (applyNucleusFix (hd (defaultErrorFixes ''t0'')) badgeDir)))) =
     Some [(''Badge.tsx'', reactImport @ ''export function Badge() { return <span/>; }''),
           (''Badge.xml'', ''<widget/>'')]
   \<and> fst (applyNucleusFix (hd (defaultErrorFixes ''t0''))
             (snd (applyNucleusFix (hd (defaultErrorFixes ''t0'')) badgeDir))) = False
   \<and> occurrences reactImport (reactImport @ ''export function Badge() { return <span/>; }'') = 1"
proof -
  let ?p = "hd (defaultErrorFixes ''t0'')"
  have h1: "fix_type (pattern_fix ?p) = FileEdit"
    and h2: "fix_file (pattern_fix ?p) = Some ''src/*.tsx''"
    and h3: "''src/*.tsx'' \<noteq> []"
    and h4: "fix_search (pattern_fix ?p) = Some []"
    and h5: "fix_replace (pattern_fix ?p) = Some reactImport"
    and h6: "reactImport \<noteq> []"
    and h7: "srcDir badgeDir =
               Some [(''Badge.tsx'', ''export function Badge() { return <span/>; }''),
                     (''Badge.xml'', ''<widget/>'')]"
    by (simp_all add: defaultErrorFixes_def reactImport_def badgeDir_def)
  have m1: "fileMatches ''src/*.tsx'' ''Badge.tsx''"
    by (simp add: fileMatches_def jsReplace_def endsWith_def suffix_def)
  have m2: "\<not> fileMatches ''src/*.tsx'' ''Badge.xml''"
    by (simp add: fileMatches_def jsReplace_def endsWith_def suffix_def)
  have a: "\<not> str_includes ''export function Badge() { return <span/>; }'' reactImport"
    by (simp add: reactImport_def)
  from applyNucleusFix_prepend_idempotent [OF h1 h2 h3 h4 h5 h6 h7]
  show ?thesis
    using m1 m2 a by (simp add: prependedFiles_def)
qed

lemma tryPatternFix_react:
  assumes "mentionsMissingReact errorText" and "srcDir d = Some files"
    and "installMissingModule env errorText d = None"
  shows "tryPatternFix env errorText d =
           (Inr \<lparr>applied = True, description = ''Added missing React imports''\<rparr>,
            d\<lparr>srcDir := Some (map addReactImport files)\<rparr>)"
  using assms by (simp add: tryPatternFix_def)

lemma addReactImport_unchanged:
  assumes "\<forall>(fileName, content)\<in>set files. endsWith fileName ''.tsx'' \<longrightarrow>
             str_includes content ''import React'' \<or> str_includes content ''import * as React''"
  shows "map addReactImport files = files"
  using assms by (induction files) (auto simp: addReactImport_def)

lemma update_first_changes:
  assumes "find P xs = Some x" and "f x \<noteq> x"
  shows "update_first P f xs \<noteq> xs"
  using assms by (induction xs) (auto split: if_splits)

lemma learnErrorFix_success_changes:
  "learnErrorFix errorText fixDescription fixDetails True t ms st \<noteq> st"
proof -
  let ?similar = "\<lambda>p. errorPattern p = errorText
                    \<or> similarity (errorKeywords p) (extractKeywords errorText) > 0.7"
  let ?bump = "\<lambda>existing. existing\<lparr>successCount := successCount existing + 1,
                   confidence := min 1 (confidence existing + 0.05), lastUsed := t\<rparr>"
  show ?thesis
  proof (cases "find ?similar st")
    case None
    then show ?thesis
      by (simp add: learnErrorFix_def Let_def)
  next
    case (Some p)
    have "successCount (?bump p) \<noteq> successCount p" by simp
    then have "?bump p \<noteq> p" by metis
    from update_first_changes [of ?similar st p ?bump, OF Some this] Some show ?thesis
      by (simp add: learnErrorFix_def Let_def)
  qed
qed

text \<open>
  Claim C10, amended. Whenever the diagnostic text mentions the missing React scope or name
  (without regard to case), the \<open>src\<close> folder exists, and the earlier rule for a missing module
  did not return, \<open>tryPatternFix\<close> reports \<open>{applied: true, description: 'Added missing React
  imports'}\<close>. When every \<open>.tsx\<close> file already has a React import (or there is none), it does
  so without changing the directory; and if neither the nucleus nor the knowledge base applied
  a fix before, \<open>analyzeAndFix\<close> returns this report and has changed the pattern store
  through \<open>learnErrorFix(..., true)\<close>.
\<close>

theorem heuristic_react_fix_reported_without_change:
  assumes "mentionsMissingReact errorText" and "srcDir d = Some files"
    and "installMissingModule env errorText d = None"
  shows "fst (tryPatternFix env errorText d) =
           Inr \<lparr>applied = True, description = ''Added missing React imports''\<rparr>
     \<and> ((\<forall>(fileName, content)\<in>set files. endsWith fileName ''.tsx'' \<longrightarrow>
            str_includes content ''import React'' \<or> str_includes content ''import * as React'')
         \<longrightarrow> snd (tryPatternFix env errorText d) = d
           \<and> (\<forall>errs config widgetPath w w1 w2.
                 join [CHR 0x0A] errs = errorText
                 \<and> tryNucleusPatterns env (getMatchingErrorFixes errorText (patterns w)) w = (None, w1)
                 \<and> tryKnownFixes env (getKnownFixes env errorText) w1 = (None, w2)
                 \<and> widgetDir w2 = d
                 \<longrightarrow> (\<exists>st'. analyzeAndFixChain env errs config widgetPath w =
                            (Inr \<lparr>applied = True, description = ''Added missing React imports''\<rparr>,
                             w2\<lparr>patterns := st'\<rparr>)
                          \<and> st' = learnErrorFix (take 200 errorText) ''Added missing React imports''
                                  \<lparr>fd_type = Some Manual, fd_file = None, fd_search = None,
                                   fd_replace = None,
                                   fd_description = Some ''Added missing React imports'',
                                   fd_commands = None\<rparr>
                                  True (clockIso env) (clockMs env) (patterns w2)
                          \<and> st' \<noteq> patterns w2)))"
proof (intro conjI impI allI)
  show "fst (tryPatternFix env errorText d) =
           Inr \<lparr>applied = True, description = ''Added missing React imports''\<rparr>"
    by (simp add: tryPatternFix_react [OF assms])
next
  assume noop: "\<forall>(fileName, content)\<in>set files. endsWith fileName ''.tsx'' \<longrightarrow>
            str_includes content ''import React'' \<or> str_includes content ''import * as React''"
  have same: "d\<lparr>srcDir := Some (map addReactImport files)\<rparr> = d"
    using assms(2) by (simp add: addReactImport_unchanged [OF noop])
  show "snd (tryPatternFix env errorText d) = d"
    by (simp add: tryPatternFix_react [OF assms] same)
  fix errs config widgetPath w w1 w2
  assume run: "join [CHR 0x0A] errs = errorText
                 \<and> tryNucleusPatterns env (getMatchingErrorFixes errorText (patterns w)) w = (None, w1)
                 \<and> tryKnownFixes env (getKnownFixes env errorText) w1 = (None, w2)
                 \<and> widgetDir w2 = d"
  have t: "tryPatternFix env errorText (widgetDir w2) =
             (Inr \<lparr>applied = True, description = ''Added missing React imports''\<rparr>, widgetDir w2)"
    using run tryPatternFix_react [OF assms] same by simp
  show "\<exists>st'. analyzeAndFixChain env errs config widgetPath w =
                            (Inr \<lparr>applied = True, description = ''Added missing React imports''\<rparr>,
                             w2\<lparr>patterns := st'\<rparr>)
                          \<and> st' = learnErrorFix (take 200 errorText) ''Added missing React imports''
                                  \<lparr>fd_type = Some Manual, fd_file = None, fd_search = None,
                                   fd_replace = None,
                                   fd_description = Some ''Added missing React imports'',
                                   fd_commands = None\<rparr>
                                  True (clockIso env) (clockMs env) (patterns w2)
                          \<and> st' \<noteq> patterns w2"
    unfolding analyzeAndFixChain_def
    using run t by (simp add: Let_def learnErrorFix_success_changes)
qed

text \<open>
  The claim C10 as stated fails: this diagnostic mentions the missing React scope and \<open>src\<close>
  exists, but the rule for a missing module comes first, installs \<open>lodash\<close> and returns.
\<close>

theorem heuristic_react_fix_counterexample:
  "mentionsMissingReact moduleAndReactDiagnostic
   \<and> srcDir importedDir \<noteq> None
   \<and> fst (tryPatternFix quietEnv moduleAndReactDiagnostic importedDir) =
       Inr \<lparr>applied = True, description = ''Installed missing module: lodash''\<rparr>
   \<and> ''Installed missing module: lodash'' \<noteq> ''Added missing React imports''"
  by code_simp

lemma react_run_join: "join [CHR 0x0A] [reactDiagnostic] = reactDiagnostic"
  by simp

lemma react_run_nucleus:
  "tryNucleusPatterns quietEnv
     (getMatchingErrorFixes reactDiagnostic (patterns freshWorld)) freshWorld =
       (None, triedWorld)"
  by code_simp

lemma react_run_known:
  "tryKnownFixes quietEnv (getKnownFixes quietEnv reactDiagnostic) triedWorld = (None, triedWorld)"
  by (simp add: quietEnv_def)

lemma react_run_dir: "widgetDir triedWorld = importedDir"
  by (simp add: triedWorld_def freshWorld_def)

lemma chain_run:
  "(case execute (chainCollaborators quietEnv reactFailure) stubConfig (stubOptions (Some 2))
           freshWorld of
      (r, w, tr) \<Rightarrow> (map_sum id fixesApplied r, widgetDir w, map source (patterns w))) =
     (Inr [''Added missing React imports''], importedDir,
      [Builtin, Builtin, Builtin, Builtin, Learned])"
  by code_simp

text \<open>
  A component that already imports React: the nucleus tries its pattern and fails, the
  heuristic reports the fix, the directory is unchanged and the store has changed; a run of the
  build loop with two attempts lists the fix and has learnt a pattern.
\<close>

theorem heuristic_react_fix_reported_without_change_witness:
  "fst (tryPatternFix quietEnv reactDiagnostic importedDir) =
     Inr \<lparr>applied = True, description = ''Added missing React imports''\<rparr>
   \<and> snd (tryPatternFix quietEnv reactDiagnostic importedDir) = importedDir
   \<and> fst (analyzeAndFixChain quietEnv [reactDiagnostic] stubConfig ''/tmp/mendix-widgets/badge''
            freshWorld) =
       Inr \<lparr>applied = True, description = ''Added missing React imports''\<rparr>
   \<and> widgetDir (snd (analyzeAndFixChain quietEnv [reactDiagnostic] stubConfig
                       ''/tmp/mendix-widgets/badge'' freshWorld)) = importedDir
   \<and> patterns (snd (analyzeAndFixChain quietEnv [reactDiagnostic] stubConfig
                       ''/tmp/mendix-widgets/badge'' freshWorld)) \<noteq> patterns triedWorld
   \<and> (case execute (chainCollaborators quietEnv reactFailure) stubConfig (stubOptions (Some 2))
             freshWorld of
        (r, w, tr) \<Rightarrow> (map_sum id fixesApplied r, widgetDir w, map source (patterns w))) =
       (Inr [''Added missing React imports''], importedDir,
        [Builtin, Builtin, Builtin, Builtin, Learned])"
proof -
  have h1: "mentionsMissingReact reactDiagnostic"
    by code_simp
  have h2: "srcDir importedDir =
              Some [(''Badge.tsx'', reactImport @ ''export function Badge() { return <span/>; }'')]"
    by (simp add: importedDir_def)
  have h3: "installMissingModule quietEnv reactDiagnostic importedDir = None"
    by code_simp
  have noop: "\<forall>(fileName, content)
                \<in>set [(''Badge.tsx'', reactImport @ ''export function Badge() { return <span/>; }'')].
              endsWith fileName ''.tsx'' \<longrightarrow>
              str_includes content ''import React'' \<or> str_includes content ''import * as React''"
    by (simp add: reactImport_def)
  note inst = heuristic_react_fix_reported_without_change [OF h1 h2 h3]
  from inst noop
  have a: "fst (tryPatternFix quietEnv reactDiagnostic importedDir) =
          Inr \<lparr>applied = True, description = ''Added missing React imports''\<rparr>"
    and b: "snd (tryPatternFix quietEnv reactDiagnostic importedDir) = importedDir"
    by blast+
  from inst noop react_run_join react_run_nucleus react_run_known react_run_dir
  obtain st' where c: "analyzeAndFixChain quietEnv [reactDiagnostic] stubConfig
        ''/tmp/mendix-widgets/badge'' freshWorld =
        (Inr \<lparr>applied = True, description = ''Added missing React imports''\<rparr>,
         triedWorld\<lparr>patterns := st'\<rparr>)" and d: "st' \<noteq> patterns triedWorld"
    by blast
  show ?thesis
    using a b c d react_run_dir chain_run by simp
qed

end
